theory Spec2Isabelle
  imports Complex_Main
begin

section \<open>Data model\<close>

text \<open>
  The five tracks of a pattern, and the three drum tracks that own a sample
  (\<^verbatim>\<open>keyof SampleSettings\<close>). JavaScript numbers are modelled as reals; times are
  seconds on the audio clock.
\<close>

datatype track = Kick | Snare | Hihat | Bass | Chords

datatype drum = KickDrum | SnareDrum | HihatDrum

text \<open>
  A step value is \<^verbatim>\<open>boolean | Note | string | null\<close>; reading past the end of
  the array gives \<^verbatim>\<open>undefined\<close>. The scheduler only tests a step for truthiness.
\<close>

datatype step = StepBool bool | StepStr string | StepNull | StepUndefined

fun truthy :: "step \<Rightarrow> bool" where
  "truthy (StepBool b) = b"
| "truthy (StepStr s) = (s \<noteq> [])"
| "truthy StepNull = False"
| "truthy StepUndefined = False"

definition step_at :: "step list \<Rightarrow> nat \<Rightarrow> step" where
  "step_at steps i = (if i < length steps then steps ! i else StepUndefined)"

text \<open>
  An options object (\<^verbatim>\<open>settings: any\<close>, \<^verbatim>\<open>SynthState\<close>, constructor options) is a
  finite map from property paths to values. \<^verbatim>\<open>node.set(o)\<close> of Tone.js overrides the
  properties that \<^verbatim>\<open>o\<close> names and leaves the others.
\<close>

datatype val = Num real | Text string

type_synonym options = "string \<rightharpoonup> val"

definition set_options :: "options \<Rightarrow> options \<Rightarrow> options" where
  "set_options new old = old ++ new"

record TrackSetting =
  volume :: real
  pan :: real
  mute :: bool
  solo :: bool

type_synonym TrackSettings = "track \<rightharpoonup> TrackSetting"

record EffectState =
  wet :: real
  settings :: options

record EffectsState =
  distortion :: EffectState
  delay :: EffectState
  reverb :: EffectState

record Pattern =
  sequencerState :: "track \<Rightarrow> step list"
  trackSettings :: TrackSettings
  effectsState :: EffectsState
  synthState :: "options option"

record DawLayout =
  patterns :: "Pattern list"
  arrangement :: "nat option list"
  bpm :: real
  sampleSettings :: "drum \<Rightarrow> string"

section \<open>The signal graph and the voices (audio-engine.ts)\<close>

record Channel =
  ch_volume :: real
  ch_pan :: real
  ch_mute :: bool

record Effect =
  fx_wet :: real
  fx_options :: options

record BassEffects =
  fx_distortion :: Effect
  fx_delay :: Effect
  fx_reverb :: Effect

text \<open>
  A graph is what both the live engine and one offline render own: five channels, the
  bass effects chain and five voices. A sampler is identified by the URL it was created
  from; a synthesizer by the options the code has given it (constructor options, then
  every \<^verbatim>\<open>set\<close>). A property the code never names keeps the library's default.
\<close>

record Graph =
  channels :: "track \<Rightarrow> Channel"
  bassEffects :: BassEffects
  samplers :: "drum \<Rightarrow> string"
  bass_synth :: options
  chords_synth :: options

text \<open>Calls on the voices and on \<^verbatim>\<open>Tone.Draw\<close>, in the order they are made.\<close>

datatype action =
    TriggerAttack track string real
  | TriggerAttackRelease track step string real
  | TriggerRelease track real
  | DrawSchedule nat nat real

datatype error = TypeError | InitError | LoadError | InvalidArgument | OfflineContextError

record AudioEngine =
  graph :: Graph
  calls :: "action list"
  isInitialized :: bool
  currentLayout :: "DawLayout option"
  currentPatternIndex :: "nat option"
  transport_bpm :: real
  transport_started :: bool
  mainLoop_started :: bool
  uiLoop_started :: bool
  mainLoop_iterations :: "nat option"

text \<open>
  \<^verbatim>\<open>new Tone.Channel({volume, pan})\<close>: an unmuted channel. \<^verbatim>\<open>new Tone.Channel()\<close>
  has volume 0 and pan 0. A new effect is fully wet.
\<close>

definition new_Channel :: "real \<Rightarrow> real \<Rightarrow> Channel" where
  "new_Channel v p = \<lparr>ch_volume = v, ch_pan = p, ch_mute = False\<rparr>"

definition new_Effect :: "options \<Rightarrow> Effect" where
  "new_Effect opts = \<lparr>fx_wet = 1, fx_options = opts\<rparr>"

definition SAMPLES_URL :: string where
  "SAMPLES_URL = ''https://storage.googleapis.com/prompt-dj-app-public/samples/rythmai-daw/''"

text \<open>
  \<^verbatim>\<open>createSampler\<close> (and \<^verbatim>\<open>createOfflineSampler\<close>, which has the same body): the
  address the sampler loads, the base URL being empty for a blob URL.
\<close>

definition createSampler :: "string \<Rightarrow> string" where
  "createSampler url = (if take 5 url = ''blob:'' then url else SAMPLES_URL @ url)"

definition SAMPLE_LIBRARY_default :: "drum \<Rightarrow> string" where
  "SAMPLE_LIBRARY_default d =
     (case d of KickDrum \<Rightarrow> ''kick.wav'' | SnareDrum \<Rightarrow> ''snare.wav'' | HihatDrum \<Rightarrow> ''hihat.wav'')"

definition live_channels :: "track \<Rightarrow> Channel" where
  "live_channels t =
     (case t of Kick \<Rightarrow> new_Channel (-3) 0 | Snare \<Rightarrow> new_Channel (-3) 0
      | Hihat \<Rightarrow> new_Channel (-10) 0 | Bass \<Rightarrow> new_Channel (-3) 0
      | Chords \<Rightarrow> new_Channel (-9) 0)"

definition live_bassEffects :: BassEffects where
  "live_bassEffects =
     \<lparr>fx_distortion = new_Effect [''distortion'' \<mapsto> Num 0],
      fx_delay = new_Effect [''delayTime'' \<mapsto> Text ''8n'', ''feedback'' \<mapsto> Num 0.5],
      fx_reverb = new_Effect [''decay'' \<mapsto> Num 1.5]\<rparr>"

definition live_bass_synth :: options where
  "live_bass_synth =
     [''oscillator.type'' \<mapsto> Text ''sawtooth'',
      ''envelope.attack'' \<mapsto> Num 0.01, ''envelope.decay'' \<mapsto> Num 0.2,
      ''envelope.sustain'' \<mapsto> Num 0.2, ''envelope.release'' \<mapsto> Num 0.1,
      ''filterEnvelope.attack'' \<mapsto> Num 0.01, ''filterEnvelope.decay'' \<mapsto> Num 0.1,
      ''filterEnvelope.sustain'' \<mapsto> Num 0.1, ''filterEnvelope.release'' \<mapsto> Num 0.2,
      ''filterEnvelope.baseFrequency'' \<mapsto> Num 200, ''filterEnvelope.octaves'' \<mapsto> Num 4]"

definition live_chords_synth :: options where
  "live_chords_synth =
     [''oscillator.type'' \<mapsto> Text ''fatsawtooth'',
      ''oscillator.count'' \<mapsto> Num 3, ''oscillator.spread'' \<mapsto> Num 30,
      ''envelope.attack'' \<mapsto> Num 0.01, ''envelope.decay'' \<mapsto> Num 0.5,
      ''envelope.sustain'' \<mapsto> Num 0.2, ''envelope.release'' \<mapsto> Num 0.8]"

text \<open>The constructor of \<^verbatim>\<open>AudioEngine\<close>.\<close>

definition new_AudioEngine :: AudioEngine where
  "new_AudioEngine =
     \<lparr>graph = \<lparr>channels = live_channels, bassEffects = live_bassEffects,
               samplers = (\<lambda>d. createSampler (SAMPLE_LIBRARY_default d)),
               bass_synth = live_bass_synth, chords_synth = live_chords_synth\<rparr>,
      calls = [], isInitialized = False, currentLayout = None,
      currentPatternIndex = None, transport_bpm = 120, transport_started = False,
      mainLoop_started = False, uiLoop_started = False, mainLoop_iterations = None\<rparr>"

subsection \<open>Applying a pattern's settings\<close>

text \<open>
  \<^verbatim>\<open>Object.keys(settings)\<close>: the tracks the settings object has an entry for. Each
  key is written to its own channel, so the order of the keys does not matter.
\<close>

definition object_keys :: "TrackSettings \<Rightarrow> track list" where
  "object_keys s = filter (\<lambda>k. s k \<noteq> None) [Kick, Snare, Hihat, Bass, Chords]"

definition soloedTracks :: "TrackSettings \<Rightarrow> track list" where
  "soloedTracks s =
     filter (\<lambda>k. case s k of None \<Rightarrow> False | Some ts \<Rightarrow> solo ts) (object_keys s)"

definition update_channel :: "TrackSettings \<Rightarrow> track \<Rightarrow> (track \<Rightarrow> Channel) \<Rightarrow> track \<Rightarrow> Channel" where
  "update_channel s key chans =
     (case s key of
        None \<Rightarrow> chans
      | Some ts \<Rightarrow>
          chans(key := (chans key)
            \<lparr>ch_pan := pan ts, ch_volume := volume ts,
             ch_mute := (if length (soloedTracks s) > 0 then \<not> solo ts else mute ts)\<rparr>))"

definition updateMixerSettings :: "TrackSettings \<Rightarrow> Graph \<Rightarrow> Graph" where
  "updateMixerSettings s g = g\<lparr>channels := fold (update_channel s) (object_keys s) (channels g)\<rparr>"

definition apply_effect :: "EffectState \<Rightarrow> Effect \<Rightarrow> Effect" where
  "apply_effect st fx = fx\<lparr>fx_wet := wet st, fx_options := set_options (settings st) (fx_options fx)\<rparr>"

definition updateBassEffects :: "EffectsState \<Rightarrow> Graph \<Rightarrow> Graph" where
  "updateBassEffects es g =
     g\<lparr>bassEffects :=
        \<lparr>fx_distortion = apply_effect (distortion es) (fx_distortion (bassEffects g)),
         fx_delay = apply_effect (delay es) (fx_delay (bassEffects g)),
         fx_reverb = apply_effect (reverb es) (fx_reverb (bassEffects g))\<rparr>\<rparr>"

definition setBassSynth :: "options \<Rightarrow> Graph \<Rightarrow> Graph" where
  "setBassSynth st g = g\<lparr>bass_synth := set_options st (bass_synth g)\<rparr>"

definition loadPattern :: "Pattern \<Rightarrow> Graph \<Rightarrow> Graph" where
  "loadPattern pattern g =
     (let g1 = updateMixerSettings (trackSettings pattern) g;
          g2 = updateBassEffects (effectsState pattern) g1
      in case synthState pattern of None \<Rightarrow> g2 | Some st \<Rightarrow> setBassSynth st g2)"

subsection \<open>The per-bar tick\<close>

text \<open>
  The calls one step of \<^verbatim>\<open>schedulePattern\<close> sets out to make, in the order of the
  source. \<open>sixteenth\<close> is \<^verbatim>\<open>Tone.Time('16n').toSeconds()\<close>.
\<close>

definition step_calls :: "real \<Rightarrow> (track \<Rightarrow> step list) \<Rightarrow> real \<Rightarrow> nat \<Rightarrow> nat \<Rightarrow> action list" where
  "step_calls sixteenth seq time barIndex i =
     (let stepTime = time + real i * sixteenth in
        (if truthy (step_at (seq Kick) i) then [TriggerAttack Kick ''C1'' stepTime] else [])
      @ (if truthy (step_at (seq Snare) i) then [TriggerAttack Snare ''C1'' stepTime] else [])
      @ (if truthy (step_at (seq Hihat) i) then [TriggerAttack Hihat ''C1'' stepTime] else [])
      @ (if truthy (step_at (seq Bass) i)
         then [TriggerAttackRelease Bass (step_at (seq Bass) i) ''16n'' stepTime] else [])
      @ (if truthy (step_at (seq Chords) i)
         then [TriggerAttackRelease Chords (step_at (seq Chords) i) ''4n'' stepTime] else [])
      @ [DrawSchedule i barIndex stepTime])"

text \<open>
  A trigger call on a voice throws when the voice cannot play what it is given: a
  synthesizer when the value is not a note name the library turns into a frequency, a
  sampler when it has no buffer for the note. \<open>accepts t v\<close> says that the voice of
  track \<open>t\<close> plays \<open>v\<close>. The exception leaves the loop, so the calls that are made are
  the ones before the first call that throws.
\<close>

fun call_ok :: "(track \<Rightarrow> step \<Rightarrow> bool) \<Rightarrow> action \<Rightarrow> bool" where
  "call_ok accepts (TriggerAttack t n time) = accepts t (StepStr n)"
| "call_ok accepts (TriggerAttackRelease t v d time) = accepts t v"
| "call_ok accepts (TriggerRelease t time) = True"
| "call_ok accepts (DrawSchedule i b time) = True"

definition run_calls :: "(track \<Rightarrow> step \<Rightarrow> bool) \<Rightarrow> action list \<Rightarrow> error option \<times> action list" where
  "run_calls accepts cs =
     (if list_all (call_ok accepts) cs then None else Some InvalidArgument,
      takeWhile (call_ok accepts) cs)"

definition schedulePattern ::
  "(track \<Rightarrow> step \<Rightarrow> bool) \<Rightarrow> real \<Rightarrow> Pattern \<Rightarrow> real \<Rightarrow> nat \<Rightarrow> error option \<times> action list" where
  "schedulePattern accepts sixteenth pattern time barIndex =
     run_calls accepts
       (concat (map (step_calls sixteenth (sequencerState pattern) time barIndex) [0..<16]))"

text \<open>
  \<^verbatim>\<open>array[i]\<close> for a number \<^verbatim>\<open>i\<close>: \<^verbatim>\<open>undefined\<close> (here \<open>None\<close>) outside the array.
\<close>

definition array_get :: "'a list \<Rightarrow> int \<Rightarrow> 'a option" where
  "array_get xs i = (if 0 \<le> i \<and> i < int (length xs) then Some (xs ! nat i) else None)"

text \<open>
  \<open>progress\<close> is \<^verbatim>\<open>this.mainLoop.progress\<close>. The result is the exception the tick
  ends with, if any, and the engine as the tick leaves it. An \<^verbatim>\<open>undefined\<close>
  arrangement entry or pattern makes \<^verbatim>\<open>loadPattern\<close> or \<^verbatim>\<open>schedulePattern\<close> throw on
  its first property read, before anything is changed; an exception in a trigger call
  comes after the settings are applied and the pattern index is remembered.
\<close>

definition tick ::
  "(track \<Rightarrow> step \<Rightarrow> bool) \<Rightarrow> real \<Rightarrow> real \<Rightarrow> real \<Rightarrow> AudioEngine \<Rightarrow> error option \<times> AudioEngine" where
  "tick accepts sixteenth progress time e =
     (case currentLayout e of
        None \<Rightarrow> (None, e)
      | Some layout \<Rightarrow>
          (let barIndex = \<lfloor>progress * real (length (arrangement layout))\<rfloor> in
           case array_get (arrangement layout) barIndex of
             None \<Rightarrow> (Some TypeError, e)
           | Some None \<Rightarrow> (None, e\<lparr>calls := calls e @ [TriggerRelease Bass time]\<rparr>)
           | Some (Some patternIndex) \<Rightarrow>
               (case array_get (patterns layout) (int patternIndex) of
                  None \<Rightarrow> (Some TypeError, e)
                | Some pattern \<Rightarrow>
                    (let e1 = (if Some patternIndex \<noteq> currentPatternIndex e
                               then e\<lparr>graph := loadPattern pattern (graph e),
                                      currentPatternIndex := Some patternIndex\<rparr>
                               else e);
                         res = schedulePattern accepts sixteenth pattern time (nat barIndex)
                     in (fst res, e1\<lparr>calls := calls e1 @ snd res\<rparr>)))))"

text \<open>
  \<^verbatim>\<open>initialize\<close> awaits \<^verbatim>\<open>Tone.start()\<close> and \<^verbatim>\<open>Tone.loaded()\<close>; \<open>audio_ok\<close> says
  whether they resolve. \<^verbatim>\<open>start\<close> returns after it when no layout is held.
\<close>

definition initialize :: "bool \<Rightarrow> AudioEngine \<Rightarrow> error + AudioEngine" where
  "initialize audio_ok e =
     (if \<not> isInitialized e
      then (if audio_ok then Inr (e\<lparr>isInitialized := True\<rparr>) else Inl InitError)
      else Inr e)"

definition start :: "bool \<Rightarrow> AudioEngine \<Rightarrow> error + AudioEngine" where
  "start audio_ok e =
     (case initialize audio_ok e of
        Inl err \<Rightarrow> Inl err
      | Inr e1 \<Rightarrow>
          (case currentLayout e1 of
             None \<Rightarrow> Inr e1
           | Some layout \<Rightarrow>
               Inr (e1\<lparr>mainLoop_iterations := Some (length (arrangement layout)),
                       transport_started := True,
                       mainLoop_started := True,
                       uiLoop_started := True\<rparr>)))"

text \<open>
  \<^verbatim>\<open>loadSample\<close> disposes the old sampler and assigns the new one before it awaits
  \<^verbatim>\<open>Tone.loaded()\<close>; \<open>loads\<close> says which addresses load. The result is the error
  the promise is rejected with, if any, and the engine as it is left.
\<close>

definition loadSample ::
  "bool \<Rightarrow> (string \<Rightarrow> bool) \<Rightarrow> drum \<Rightarrow> string \<Rightarrow> AudioEngine \<Rightarrow> error option \<times> AudioEngine" where
  "loadSample audio_ok loads drumTrack url e =
     (case initialize audio_ok e of
        Inl err \<Rightarrow> (Some err, e)
      | Inr e1 \<Rightarrow>
          (let e2 = e1\<lparr>graph := (graph e1)
                      \<lparr>samplers := (samplers (graph e1))(drumTrack := createSampler url)\<rparr>\<rparr>
           in (if loads (createSampler url) then None else Some LoadError, e2)))"

text \<open>
  \<^verbatim>\<open>updateAll\<close>: the three reloads are started one after the other and their
  failures are only logged. The master bus is not part of this model.
\<close>

definition loadSampleIfChanged ::
  "bool \<Rightarrow> (string \<Rightarrow> bool) \<Rightarrow> DawLayout option \<Rightarrow> DawLayout \<Rightarrow> drum \<Rightarrow> AudioEngine \<Rightarrow> AudioEngine" where
  "loadSampleIfChanged audio_ok loads oldLayout layout tr e =
     (if (case oldLayout of None \<Rightarrow> True
          | Some old \<Rightarrow> sampleSettings old tr \<noteq> sampleSettings layout tr)
      then snd (loadSample audio_ok loads tr (sampleSettings layout tr) e)
      else e)"

definition updateAll :: "bool \<Rightarrow> (string \<Rightarrow> bool) \<Rightarrow> DawLayout \<Rightarrow> AudioEngine \<Rightarrow> AudioEngine" where
  "updateAll audio_ok loads layout e =
     (let oldLayout = currentLayout e;
          e1 = e\<lparr>currentLayout := Some layout, transport_bpm := bpm layout\<rparr>
      in fold (loadSampleIfChanged audio_ok loads oldLayout layout)
              [KickDrum, SnareDrum, HihatDrum] e1)"

subsection \<open>The offline renderer\<close>

text \<open>
  \<^verbatim>\<open>renderSong\<close> builds its own graph inside \<^verbatim>\<open>Tone.Offline\<close>: channels, effects and
  synthesizers are constructed without options, the samplers from the layout's sample
  settings. The wait for the samples (\<^verbatim>\<open>Tone.loaded\<close>) is taken to succeed.
\<close>

definition offline_graph :: "DawLayout \<Rightarrow> Graph" where
  "offline_graph layout =
     \<lparr>channels = (\<lambda>t. new_Channel 0 0),
      bassEffects = \<lparr>fx_distortion = new_Effect Map.empty, fx_delay = new_Effect Map.empty,
                     fx_reverb = new_Effect Map.empty\<rparr>,
      samplers = (\<lambda>d. createSampler (sampleSettings layout d)),
      bass_synth = Map.empty, chords_synth = Map.empty\<rparr>"

definition offline_update_channel ::
  "TrackSettings \<Rightarrow> track \<Rightarrow> (track \<Rightarrow> Channel) \<Rightarrow> track \<Rightarrow> Channel" where
  "offline_update_channel s key chans =
     (case s key of
        None \<Rightarrow> chans
      | Some ts \<Rightarrow>
          chans(key := (chans key)
            \<lparr>ch_volume := volume ts, ch_pan := pan ts,
             ch_mute := (if length (soloedTracks s) > 0 then \<not> solo ts else mute ts)\<rparr>))"

definition offline_apply_settings :: "Pattern \<Rightarrow> Graph \<Rightarrow> Graph" where
  "offline_apply_settings pattern g =
     (let g1 = g\<lparr>channels := fold (offline_update_channel (trackSettings pattern))
                                (object_keys (trackSettings pattern)) (channels g)\<rparr>;
          fx = bassEffects g1;
          d = (fx_distortion fx)\<lparr>fx_wet := wet (distortion (effectsState pattern))\<rparr>;
          d' = d\<lparr>fx_options := set_options (settings (distortion (effectsState pattern))) (fx_options d)\<rparr>;
          l = (fx_delay fx)\<lparr>fx_wet := wet (delay (effectsState pattern))\<rparr>;
          l' = l\<lparr>fx_options := set_options (settings (delay (effectsState pattern))) (fx_options l)\<rparr>;
          r = (fx_reverb fx)\<lparr>fx_wet := wet (reverb (effectsState pattern))\<rparr>;
          r' = r\<lparr>fx_options := set_options (settings (reverb (effectsState pattern))) (fx_options r)\<rparr>;
          g2 = g1\<lparr>bassEffects := \<lparr>fx_distortion = d', fx_delay = l', fx_reverb = r'\<rparr>\<rparr>
      in case synthState pattern of
           None \<Rightarrow> g2
         | Some st \<Rightarrow> g2\<lparr>bass_synth := set_options st (bass_synth g2)\<rparr>)"

definition offline_step_calls :: "real \<Rightarrow> (track \<Rightarrow> step list) \<Rightarrow> real \<Rightarrow> nat \<Rightarrow> action list" where
  "offline_step_calls sixteenth seq time i =
     (let stepTime = time + real i * sixteenth in
        (if truthy (step_at (seq Kick) i) then [TriggerAttack Kick ''C1'' stepTime] else [])
      @ (if truthy (step_at (seq Snare) i) then [TriggerAttack Snare ''C1'' stepTime] else [])
      @ (if truthy (step_at (seq Hihat) i) then [TriggerAttack Hihat ''C1'' stepTime] else [])
      @ (if truthy (step_at (seq Bass) i)
         then [TriggerAttackRelease Bass (step_at (seq Bass) i) ''16n'' stepTime] else [])
      @ (if truthy (step_at (seq Chords) i)
         then [TriggerAttackRelease Chords (step_at (seq Chords) i) ''4n'' stepTime] else []))"

text \<open>
  The body of the per-bar loop. \<open>barDuration\<close> is \<^verbatim>\<open>Tone.Time('1m').toSeconds()\<close>. An
  empty entry is skipped (\<^verbatim>\<open>continue\<close>); a pattern index outside \<^verbatim>\<open>patterns\<close> makes
  the read of \<^verbatim>\<open>pattern.trackSettings\<close> throw, and a trigger call throws as it does
  in the live scheduler: either way the render is rejected.
\<close>

definition render_bar ::
  "(track \<Rightarrow> step \<Rightarrow> bool) \<Rightarrow> real \<Rightarrow> real \<Rightarrow> DawLayout \<Rightarrow> nat \<Rightarrow> Graph \<times> action list
     \<Rightarrow> error + Graph \<times> action list" where
  "render_bar accepts barDuration sixteenth layout barIndex st =
     (case arrangement layout ! barIndex of
        None \<Rightarrow> Inr st
      | Some patternIndex \<Rightarrow>
          (case array_get (patterns layout) (int patternIndex) of
             None \<Rightarrow> Inl TypeError
           | Some pattern \<Rightarrow>
               (let time = real barIndex * barDuration;
                    res = run_calls accepts
                            (concat (map (offline_step_calls sixteenth
                                      (sequencerState pattern) time) [0..<16]))
                in case fst res of
                     Some err \<Rightarrow> Inl err
                   | None \<Rightarrow> Inr (offline_apply_settings pattern (fst st), snd st @ snd res))))"

fun render_bars ::
  "(track \<Rightarrow> step \<Rightarrow> bool) \<Rightarrow> real \<Rightarrow> real \<Rightarrow> DawLayout \<Rightarrow> nat list \<Rightarrow> Graph \<times> action list
     \<Rightarrow> error + Graph \<times> action list" where
  "render_bars accepts barDuration sixteenth layout [] st = Inr st"
| "render_bars accepts barDuration sixteenth layout (barIndex # rest) st =
     (case render_bar accepts barDuration sixteenth layout barIndex st of
        Inl err \<Rightarrow> Inl err
      | Inr st' \<Rightarrow> render_bars accepts barDuration sixteenth layout rest st')"

text \<open>
  What \<^verbatim>\<open>renderSong\<close> hands to the offline context: the length of the render, and the
  graph and the scheduled calls when the transport is started. \<^verbatim>\<open>Tone.Offline\<close> first
  creates an offline context of \<open>totalDuration * rate\<close> frames, \<open>rate\<close> being the
  sample rate of the live context, and that is refused when it is not even one frame, as
  for an arrangement of no bars. Durations are not negative.
\<close>

record Render =
  totalDuration :: real
  offline :: Graph
  scheduled :: "action list"

definition renderSong ::
  "real \<Rightarrow> (track \<Rightarrow> step \<Rightarrow> bool) \<Rightarrow> real \<Rightarrow> real \<Rightarrow> DawLayout \<Rightarrow> error + Render" where
  "renderSong rate accepts barDuration sixteenth layout =
     (let totalDuration = barDuration * real (length (arrangement layout)) in
      if \<lfloor>totalDuration * rate\<rfloor> < 1 then Inl OfflineContextError
      else
        (case render_bars accepts barDuration sixteenth layout
                [0..<length (arrangement layout)] (offline_graph layout, []) of
           Inl err \<Rightarrow> Inl err
         | Inr st \<Rightarrow>
             Inr \<lparr>totalDuration = totalDuration, offline = fst st, scheduled = snd st\<rparr>))"


fun is_voice_call :: "action \<Rightarrow> bool" where
  "is_voice_call (DrawSchedule i b time) = False"
| "is_voice_call c = True"

section \<open>WAV encoding (audioBufferToWav)\<close>

text \<open>
  An \<^verbatim>\<open>AudioBuffer\<close>: \<open>buffer_length\<close> is \<^verbatim>\<open>buffer.length\<close>, the number of
  frames. Samples are reals; a read past the end of a channel is \<^verbatim>\<open>undefined\<close>.
  Bytes are naturals below 256, and the \<^verbatim>\<open>DataView\<close> is the list of its bytes together
  with the running position \<^verbatim>\<open>pos\<close>. The sample rate is taken to be a whole number.
\<close>

record AudioBuffer =
  numberOfChannels :: nat
  buffer_length :: nat
  sampleRate :: nat
  getChannelData :: "nat \<Rightarrow> real list"

type_synonym view = "nat list \<times> nat"

definition setUint16 :: "nat \<Rightarrow> view \<Rightarrow> view" where
  "setUint16 data vp =
     (case vp of (bytes, pos) \<Rightarrow>
        (bytes[pos := data mod 256, pos + 1 := data div 256 mod 256], pos + 2))"

definition setUint32 :: "nat \<Rightarrow> view \<Rightarrow> view" where
  "setUint32 data vp =
     (case vp of (bytes, pos) \<Rightarrow>
        (bytes[pos := data mod 256, pos + 1 := data div 256 mod 256,
               pos + 2 := data div 65536 mod 256, pos + 3 := data div 16777216 mod 256],
         pos + 4))"

definition setInt16 :: "int \<Rightarrow> view \<Rightarrow> view" where
  "setInt16 data vp = setUint16 (nat (data mod 65536)) vp"

definition getUint16 :: "nat list \<Rightarrow> nat \<Rightarrow> nat" where
  "getUint16 bytes off = bytes ! off + 256 * bytes ! (off + 1)"

definition getUint32 :: "nat list \<Rightarrow> nat \<Rightarrow> nat" where
  "getUint32 bytes off =
     bytes ! off + 256 * bytes ! (off + 1) + 65536 * bytes ! (off + 2)
       + 16777216 * bytes ! (off + 3)"

definition getInt16 :: "nat list \<Rightarrow> nat \<Rightarrow> int" where
  "getInt16 bytes off = signed_take_bit 15 (int (getUint16 bytes off))"

definition write_header :: "AudioBuffer \<Rightarrow> view" where
  "write_header buffer =
     (let numOfChan = numberOfChannels buffer;
          len = buffer_length buffer * numOfChan * 2 + 44;
          v0 = (replicate len 0, 0);
          v1 = setUint32 0x46464952 v0;
          v2 = setUint32 (len - 8) v1;
          v3 = setUint32 0x45564157 v2;
          v4 = setUint32 0x20746d66 v3;
          v5 = setUint32 16 v4;
          v6 = setUint16 1 v5;
          v7 = setUint16 numOfChan v6;
          v8 = setUint32 (sampleRate buffer) v7;
          v9 = setUint32 (sampleRate buffer * 2 * numOfChan) v8;
          v10 = setUint16 (numOfChan * 2) v9;
          v11 = setUint16 16 v10;
          v12 = setUint32 0x61746164 v11
      in setUint32 (len - snd v12 - 4) v12)"

text \<open>
  Line 519 clamps, line 520 scales and applies \<^verbatim>\<open>| 0\<close>, which truncates towards zero
  and wraps to 32 signed bits. An \<^verbatim>\<open>undefined\<close> sample becomes NaN and then 0. On the
  32-bit floats of a channel the two products are exact in double precision and the
  rounding of the sum does not change the comparison, so the reals compute what the code
  computes.
\<close>

definition clamp_sample :: "real \<Rightarrow> real" where
  "clamp_sample x = max (-1) (min 1 x)"

definition to_int32 :: "real \<Rightarrow> int" where
  "to_int32 x = signed_take_bit 31 (if x < 0 then \<lceil>x\<rceil> else \<lfloor>x\<rfloor>)"

definition scale_sample :: "real \<Rightarrow> int" where
  "scale_sample sample = to_int32 (if 0.5 + sample < 0 then sample * 32768 else sample * 32767)"

definition channel_sample :: "real list \<Rightarrow> nat \<Rightarrow> real option" where
  "channel_sample chan offset = (if offset < length chan then Some (chan ! offset) else None)"

definition encode_sample :: "real option \<Rightarrow> int" where
  "encode_sample x = (case x of None \<Rightarrow> 0 | Some v \<Rightarrow> scale_sample (clamp_sample v))"

definition write_frame :: "AudioBuffer \<Rightarrow> nat \<Rightarrow> view \<Rightarrow> view" where
  "write_frame buffer offset vp =
     fold (\<lambda>i. setInt16 (encode_sample (channel_sample (getChannelData buffer i) offset)))
          [0..<numberOfChannels buffer] vp"

partial_function (option) write_data :: "AudioBuffer \<Rightarrow> nat \<Rightarrow> nat \<Rightarrow> view \<Rightarrow> view option" where
  "write_data buffer len offset vp =
     (if snd vp < len then write_data buffer len (Suc offset) (write_frame buffer offset vp)
      else Some vp)"

definition audioBufferToWav :: "AudioBuffer \<Rightarrow> nat list option" where
  "audioBufferToWav buffer =
     (let len = buffer_length buffer * numberOfChannels buffer * 2 + 44
      in map_option fst (write_data buffer len 0 (write_header buffer)))"

section \<open>The default layout\<close>

definition createDefaultSynthState :: options where
  "createDefaultSynthState =
     [''oscillator.type'' \<mapsto> Text ''sawtooth'',
      ''envelope.attack'' \<mapsto> Num 0.01, ''envelope.decay'' \<mapsto> Num 0.2,
      ''envelope.sustain'' \<mapsto> Num 0.2, ''envelope.release'' \<mapsto> Num 0.1,
      ''filter.type'' \<mapsto> Text ''lowpass'', ''filter.rolloff'' \<mapsto> Num (-12),
      ''filter.Q'' \<mapsto> Num 1,
      ''filterEnvelope.attack'' \<mapsto> Num 0.01, ''filterEnvelope.decay'' \<mapsto> Num 0.1,
      ''filterEnvelope.sustain'' \<mapsto> Num 0.1, ''filterEnvelope.release'' \<mapsto> Num 0.2,
      ''filterEnvelope.baseFrequency'' \<mapsto> Num 200, ''filterEnvelope.octaves'' \<mapsto> Num 4]"

definition createDefaultEffectsState :: EffectsState where
  "createDefaultEffectsState =
     \<lparr>distortion = \<lparr>wet = 0, settings = [''distortion'' \<mapsto> Num 0.4]\<rparr>,
      delay = \<lparr>wet = 0, settings = [''delayTime'' \<mapsto> Text ''8n'', ''feedback'' \<mapsto> Num 0.5]\<rparr>,
      reverb = \<lparr>wet = 0, settings = [''decay'' \<mapsto> Num 1.5, ''preDelay'' \<mapsto> Num 0.01]\<rparr>\<rparr>"

text \<open>Drum steps are booleans; bass and chord steps are names or \<^verbatim>\<open>null\<close>.\<close>

definition drum_steps :: "bool list \<Rightarrow> step list" where
  "drum_steps bs = map StepBool bs"

definition note_steps :: "string option list \<Rightarrow> step list" where
  "note_steps ns = map (\<lambda>n. case n of None \<Rightarrow> StepNull | Some x \<Rightarrow> StepStr x) ns"

definition track_setting :: "real \<Rightarrow> real \<Rightarrow> TrackSetting" where
  "track_setting v p = \<lparr>volume = v, pan = p, mute = False, solo = False\<rparr>"

definition pattern1 :: Pattern where
  "pattern1 =
     \<lparr>sequencerState = (\<lambda>t. case t of
          Kick \<Rightarrow> drum_steps
              [True, False, False, False, True, False, False, False,
               True, False, False, False, True, False, False, False]
        | Snare \<Rightarrow> drum_steps
              [False, False, False, False, True, False, False, False,
               False, False, False, False, True, False, False, False]
        | Hihat \<Rightarrow> drum_steps
              [True, True, True, True, True, True, True, True,
               True, True, True, True, True, True, True, True]
        | Bass \<Rightarrow> note_steps
              [Some ''C3'', None, Some ''D#3'', Some ''F3'', None, Some ''D#3'', None, None,
               Some ''G3'', None, Some ''A#3'', Some ''C4'', None, Some ''A#3'', Some ''G3'', None]
        | Chords \<Rightarrow> note_steps
              [Some ''Cm7'', None, None, None, Some ''Fm7'', None, None, None,
               Some ''G#maj7'', None, None, None, Some ''G7'', None, None, None]),
      trackSettings = [Kick \<mapsto> track_setting (-3) 0, Snare \<mapsto> track_setting (-3) 0,
                       Hihat \<mapsto> track_setting (-10) 0, Bass \<mapsto> track_setting (-3) 0,
                       Chords \<mapsto> track_setting (-9) 0],
      effectsState = createDefaultEffectsState,
      synthState = Some createDefaultSynthState\<rparr>"

definition pattern2 :: Pattern where
  "pattern2 =
     \<lparr>sequencerState = (\<lambda>t. case t of
          Kick \<Rightarrow> drum_steps
              [True, False, True, False, True, False, True, False,
               True, False, True, False, True, False, True, False]
        | Snare \<Rightarrow> drum_steps
              [False, False, False, False, True, False, False, True,
               False, False, False, False, True, False, False, True]
        | Hihat \<Rightarrow> drum_steps
              [False, True, False, True, False, True, False, True,
               False, True, False, True, False, True, False, True]
        | Bass \<Rightarrow> note_steps
              [Some ''C3'', Some ''C3'', Some ''D#3'', None, Some ''F3'', Some ''F3'', None, None,
               Some ''G3'', None, Some ''C4'', None, Some ''A#3'', None, Some ''G3'', None]
        | Chords \<Rightarrow> note_steps
              [Some ''Cm7'', None, Some ''Cm7'', None, Some ''Fm7'', None, Some ''Fm7'', None,
               Some ''G#maj7'', None, Some ''G#maj7'', None, Some ''G7'', None, Some ''G7'', None]),
      trackSettings = [Kick \<mapsto> track_setting 0 0, Snare \<mapsto> track_setting 0 0.1,
                       Hihat \<mapsto> track_setting (-8) (-0.2), Bass \<mapsto> track_setting (-2) 0,
                       Chords \<mapsto> track_setting (-8) 0],
      effectsState = createDefaultEffectsState
        \<lparr>distortion := \<lparr>wet = 0.3, settings = [''distortion'' \<mapsto> Num 0.8]\<rparr>\<rparr>,
      synthState = Some createDefaultSynthState\<rparr>"

definition buildDefaultLayout :: DawLayout where
  "buildDefaultLayout =
     \<lparr>patterns = [pattern1, pattern2] @ replicate 6 pattern1,
      arrangement = map Some [0, 0, 0, 0, 1, 1, 1, 1, 0, 0, 0, 0, 1, 1, 1, 1],
      bpm = 120,
      sampleSettings = SAMPLE_LIBRARY_default\<rparr>"

section \<open>The workstation component\<close>

text \<open>
  The state of the component that the two handlers below use. \<open>toast\<close> says whether
  the toast element has been found; without it a notification is only logged. The
  engine's \<^verbatim>\<open>currentLayout\<close>, once set, is the component's layout object itself, so a
  mutation in place reaches both.
\<close>

record Daw =
  layout :: DawLayout
  activePatternIndex :: nat
  audioEngine :: AudioEngine
  toast :: bool
  notifications :: "string list"
  console :: "string list"
  isAiThinking :: bool
  isLibraryOpen :: bool
  chordPromptText :: string

definition showNotification :: "string \<Rightarrow> Daw \<Rightarrow> Daw" where
  "showNotification message d =
     (if toast d then d\<lparr>notifications := notifications d @ [message]\<rparr>
      else d\<lparr>console := console d @ [''Notification: '' @ message]\<rparr>)"

definition mutate_layout :: "(DawLayout \<Rightarrow> DawLayout) \<Rightarrow> Daw \<Rightarrow> Daw" where
  "mutate_layout f d =
     d\<lparr>layout := f (layout d),
       audioEngine := (audioEngine d)\<lparr>currentLayout := map_option f (currentLayout (audioEngine d))\<rparr>\<rparr>"

definition drum_name :: "drum \<Rightarrow> string" where
  "drum_name d = (case d of KickDrum \<Rightarrow> ''kick'' | SnareDrum \<Rightarrow> ''snare'' | HihatDrum \<Rightarrow> ''hihat'')"

definition drum_Name :: "drum \<Rightarrow> string" where
  "drum_Name d = (case d of KickDrum \<Rightarrow> ''Kick'' | SnareDrum \<Rightarrow> ''Snare'' | HihatDrum \<Rightarrow> ''Hihat'')"

definition handleSampleSelected ::
  "bool \<Rightarrow> (string \<Rightarrow> bool) \<Rightarrow> drum \<Rightarrow> string \<Rightarrow> Daw \<Rightarrow> Daw" where
  "handleSampleSelected audio_ok loads tr url d =
     (let d1 = d\<lparr>isLibraryOpen := False\<rparr>;
          d2 = showNotification (''Loading '' @ drum_name tr @ '' sample...'') d1;
          res = loadSample audio_ok loads tr url (audioEngine d2);
          d3 = d2\<lparr>audioEngine := snd res\<rparr>
      in case fst res of
           None \<Rightarrow>
             showNotification (drum_Name tr @ '' sample loaded!'')
               (mutate_layout (\<lambda>l. l\<lparr>sampleSettings := (sampleSettings l)(tr := url)\<rparr>) d3)
         | Some err \<Rightarrow>
             showNotification (''Error: Could not load '' @ drum_name tr @ '' sample.'')
               (d3\<lparr>console := console d3 @ [''Failed to load sample for '' @ drum_name tr @ '':'']\<rparr>))"

text \<open>
  \<^verbatim>\<open>activePattern\<close>: the pattern at the active index, else the first one; with no
  pattern at all the getter returns a fresh dummy, and what is written to it is lost.
\<close>

definition activePattern_index :: "Daw \<Rightarrow> nat option" where
  "activePattern_index d =
     (if patterns (layout d) = [] then None
      else if activePatternIndex d < length (patterns (layout d)) then Some (activePatternIndex d)
      else Some 0)"

definition set_chord_steps :: "nat \<Rightarrow> step list \<Rightarrow> DawLayout \<Rightarrow> DawLayout" where
  "set_chord_steps i steps l =
     l\<lparr>patterns := (patterns l)
         [i := (patterns l ! i)\<lparr>sequencerState := (sequencerState (patterns l ! i))(Chords := steps)\<rparr>]\<rparr>"

text \<open>
  What awaiting \<^verbatim>\<open>generateChordsFromPrompt\<close> gives: \<^verbatim>\<open>null\<close>, an array of chord
  names and \<^verbatim>\<open>null\<close>s, or an exception.
\<close>

datatype chords_result = Returns "string option list option" | Throws

definition chord_step :: "string option \<Rightarrow> step" where
  "chord_step c = (case c of None \<Rightarrow> StepNull | Some n \<Rightarrow> StepStr n)"

definition is_space :: "char \<Rightarrow> bool" where
  "is_space c = (c \<in> set [CHR '' '', CHR 0x09, CHR 0x0A, CHR 0x0B, CHR 0x0C, CHR 0x0D])"

definition blank :: "string \<Rightarrow> bool" where
  "blank s = list_all is_space s"

definition handleGenerateChords ::
  "bool \<Rightarrow> (string \<Rightarrow> bool) \<Rightarrow> chords_result \<Rightarrow> Daw \<Rightarrow> Daw" where
  "handleGenerateChords audio_ok loads res d =
     (if blank (chordPromptText d)
      then showNotification ''Please enter a chord progression prompt.'' d
      else
        (let d1 = d\<lparr>isAiThinking := True\<rparr>;
             d2 = (case res of
                     Throws \<Rightarrow>
                       showNotification ''Error generating AI chords.''
                         (d1\<lparr>console := console d1 @ [''Failed to generate AI chords'']\<rparr>)
                   | Returns None \<Rightarrow>
                       showNotification ''AI failed to generate a valid chord progression.'' d1
                   | Returns (Some newChords) \<Rightarrow>
                       (if length newChords = 16
                        then
                          (let d3 = (case activePattern_index d1 of
                                       None \<Rightarrow> d1
                                     | Some i \<Rightarrow>
                                         mutate_layout (set_chord_steps i (map chord_step newChords)) d1);
                               d4 = d3\<lparr>audioEngine := updateAll audio_ok loads (layout d3) (audioEngine d3)\<rparr>
                           in showNotification ''AI chord progression generated!'' d4)
                        else showNotification ''AI failed to generate a valid chord progression.'' d1))
         in d2\<lparr>isAiThinking := False\<rparr>))"

section \<open>Invariants and sample inputs\<close>

text \<open>
  The layout invariant of the data model: every non-empty arrangement entry is an index
  into \<^verbatim>\<open>patterns\<close>.
\<close>

definition valid_arrangement :: "DawLayout \<Rightarrow> bool" where
  "valid_arrangement l =
     list_all (\<lambda>entry. case entry of None \<Rightarrow> True | Some p \<Rightarrow> p < length (patterns l))
       (arrangement l)"

text \<open>
  What a trigger call is given for a step of a track: the note \<^verbatim>\<open>C1\<close> on a drum track,
  the step's own value on the bass and chord tracks. A pattern is playable when the voices
  accept what each of its non-rest steps gives them, and an arrangement when the pattern
  of each of its non-empty bars is.
\<close>

definition call_note :: "track \<Rightarrow> step \<Rightarrow> step" where
  "call_note t v = (case t of Bass \<Rightarrow> v | Chords \<Rightarrow> v | _ \<Rightarrow> StepStr ''C1'')"

definition playable :: "(track \<Rightarrow> step \<Rightarrow> bool) \<Rightarrow> Pattern \<Rightarrow> bool" where
  "playable accepts pattern =
     list_all (\<lambda>i. list_all (\<lambda>t. if truthy (step_at (sequencerState pattern t) i)
                                 then accepts t (call_note t (step_at (sequencerState pattern t) i))
                                 else True)
                      [Kick, Snare, Hihat, Bass, Chords])
       [0..<16]"

definition playable_arrangement :: "(track \<Rightarrow> step \<Rightarrow> bool) \<Rightarrow> DawLayout \<Rightarrow> bool" where
  "playable_arrangement accepts l =
     list_all (\<lambda>entry. case entry of None \<Rightarrow> True | Some p \<Rightarrow> playable accepts (patterns l ! p))
       (arrangement l)"

text \<open>
  Voices with their samples loaded, on note names in scientific pitch notation: a letter
  from A to G, an accidental or none, and an octave number. Tone.js reads such a prefix as
  a note; a chord name such as \<^verbatim>\<open>Cm7\<close> is no note. Only these names are taken as
  played here.
\<close>

definition starts_octave :: "string \<Rightarrow> bool" where
  "starts_octave r =
     (case r of
        [] \<Rightarrow> False
      | c # r' \<Rightarrow>
          if c = CHR ''-'' then (case r' of [] \<Rightarrow> False | d # _ \<Rightarrow> d \<in> set ''0123456789'')
          else c \<in> set ''0123456789'')"

definition pitch_name :: "string \<Rightarrow> bool" where
  "pitch_name n =
     (case n of
        [] \<Rightarrow> False
      | c # r \<Rightarrow>
          c \<in> set ''abcdefgABCDEFG''
          \<and> list_ex (\<lambda>a. take (length a) r = a \<and> starts_octave (drop (length a) r))
               ['''', ''b'', ''#'', ''x'', ''bb''])"

definition tone_accepts :: "track \<Rightarrow> step \<Rightarrow> bool" where
  "tone_accepts t v = (case v of StepStr n \<Rightarrow> pitch_name n | _ \<Rightarrow> False)"

text \<open>
  The component once it is connected and rendered: the default layout has been handed to
  the engine with \<^verbatim>\<open>updateAll\<close> and the toast element has been found.
\<close>

definition initial_daw :: Daw where
  "initial_daw =
     \<lparr>layout = buildDefaultLayout, activePatternIndex = 0,
      audioEngine = updateAll True (\<lambda>u. True) buildDefaultLayout new_AudioEngine,
      toast = True, notifications = [], console = [], isAiThinking = False,
      isLibraryOpen = False, chordPromptText = ''Sad lofi progression''\<rparr>"

text \<open>Pattern 1 with the kick soloed, and the default layout with a gap in bar 1.\<close>

definition solo_kick_pattern :: Pattern where
  "solo_kick_pattern =
     pattern1\<lparr>trackSettings :=
       (trackSettings pattern1)(Kick \<mapsto> (track_setting (-3) 0)\<lparr>solo := True\<rparr>)\<rparr>"

definition gap_layout :: DawLayout where
  "gap_layout = buildDefaultLayout\<lparr>arrangement := [Some 0, None, Some 0]\<rparr>"

text \<open>
  Pattern 1 with the roots of its chords as chord steps, which the chord voice plays, and
  the layout of three bars that holds it around a gap.
\<close>

definition note_pattern :: Pattern where
  "note_pattern =
     pattern1\<lparr>sequencerState := (sequencerState pattern1)
       (Chords := note_steps
          [Some ''C4'', None, None, None, Some ''F4'', None, None, None,
           Some ''G#4'', None, None, None, Some ''G4'', None, None, None])\<rparr>"

definition note_layout :: DawLayout where
  "note_layout =
     buildDefaultLayout\<lparr>patterns := [note_pattern], arrangement := [Some 0, None, Some 0]\<rparr>"

text \<open>A stereo buffer of three frames.\<close>

definition demo_buffer :: AudioBuffer where
  "demo_buffer =
     \<lparr>numberOfChannels = 2, buffer_length = 3, sampleRate = 44100,
      getChannelData = (\<lambda>i. if i = 0 then [0, 1/2, -1] else [1, - (1/4), 2])\<rparr>"

section \<open>Mixer: mute and solo\<close>

lemma fold_update_channel_other:
  "k \<notin> set ks \<Longrightarrow> fold (update_channel s) ks chans k = chans k"
  by (induction ks arbitrary: chans) (auto simp: update_channel_def split: option.splits)

lemma fold_update_channel_mute:
  "k \<in> set ks \<Longrightarrow> s k = Some ts \<Longrightarrow>
   ch_mute (fold (update_channel s) ks chans k)
     = (if length (soloedTracks s) > 0 then \<not> solo ts else mute ts)"
proof (induction ks arbitrary: chans)
  case Nil
  then show ?case by simp
next
  case (Cons x xs)
  show ?case
  proof (cases "k \<in> set xs")
    case True
    then show ?thesis using Cons by simp
  next
    case False
    then have "k = x" using Cons.prems by simp
    moreover have "fold (update_channel s) xs (update_channel s x chans) x
                     = update_channel s x chans x"
      using False \<open>k = x\<close> by (simp add: fold_update_channel_other)
    moreover have "ch_mute (update_channel s x chans x)
                     = (if length (soloedTracks s) > 0 then \<not> solo ts else mute ts)"
      using Cons.prems \<open>k = x\<close> by (simp add: update_channel_def)
    ultimately show ?thesis by simp
  qed
qed

text \<open>
  The offline loop writes volume before pan and the live one pan before volume; the
  channel that results is the same.
\<close>

lemma channel_update_order:
  "c\<lparr>ch_volume := v, ch_pan := p, ch_mute := m\<rparr> = c\<lparr>ch_pan := p, ch_volume := v, ch_mute := m\<rparr>"
  by (cases c) simp

lemma offline_update_channel_eq: "offline_update_channel = update_channel"
  by (intro ext)
     (simp add: offline_update_channel_def update_channel_def channel_update_order
        split: option.splits)

lemma set_object_keys: "set (object_keys s) = dom s"
proof -
  have all: "k \<in> set [Kick, Snare, Hihat, Bass, Chords]" for k
    by (cases k) simp_all
  have "set (object_keys s) = {k \<in> set [Kick, Snare, Hihat, Bass, Chords]. s k \<noteq> None}"
    unfolding object_keys_def by (rule set_filter)
  also have "\<dots> = {k. s k \<noteq> None}"
    using all by blast
  finally show ?thesis by (simp add: dom_def)
qed

lemma soloedTracks_nonempty:
  "(length (soloedTracks s) > 0) = (\<exists>k ts. s k = Some ts \<and> solo ts)"
proof -
  have "(soloedTracks s \<noteq> [])
          = (\<exists>k \<in> set (object_keys s). case s k of None \<Rightarrow> False | Some ts \<Rightarrow> solo ts)"
    unfolding soloedTracks_def by (simp add: filter_empty_conv)
  also have "\<dots> = (\<exists>k ts. s k = Some ts \<and> solo ts)"
    by (auto simp: set_object_keys split: option.splits)
  finally show ?thesis by simp
qed

text \<open>What the offline loop applies at a bar is what \<^verbatim>\<open>loadPattern\<close> applies.\<close>

lemma offline_apply_settings_eq: "offline_apply_settings pattern g = loadPattern pattern g"
  by (simp add: offline_update_channel_eq offline_apply_settings_def loadPattern_def
      updateMixerSettings_def updateBassEffects_def setBassSynth_def apply_effect_def Let_def
      split: option.splits)

text \<open>
  C3. Whenever track settings are applied, live by \<^verbatim>\<open>updateMixerSettings\<close> or offline by
  the per-bar loop, a track that has an entry gets its channel muted as follows: if some
  track of the settings has solo set, the channel is muted exactly when the track's own
  solo is off, whatever its mute flag; if no track has solo set, the channel's mute is the
  track's own mute flag.
\<close>

theorem mute_solo_resolution:
  assumes "trackSettings pattern k = Some ts"
  shows "ch_mute (channels (updateMixerSettings (trackSettings pattern) g) k)
           = (if (\<exists>k' ts'. trackSettings pattern k' = Some ts' \<and> solo ts') then \<not> solo ts
              else mute ts)
       \<and> ch_mute (channels (offline_apply_settings pattern g') k)
           = (if (\<exists>k' ts'. trackSettings pattern k' = Some ts' \<and> solo ts') then \<not> solo ts
              else mute ts)"
proof -
  let ?s = "trackSettings pattern"
  have k: "k \<in> set (object_keys ?s)"
    using assms by (auto simp: set_object_keys)
  have live: "ch_mute (channels (updateMixerSettings ?s g) k)
           = (if (\<exists>k' ts'. ?s k' = Some ts' \<and> solo ts') then \<not> solo ts else mute ts)"
    unfolding updateMixerSettings_def
    using fold_update_channel_mute [of k "object_keys ?s" ?s ts "channels g", OF k assms]
      soloedTracks_nonempty [of ?s] by simp
  have "channels (offline_apply_settings pattern g')
          = fold (update_channel ?s) (object_keys ?s) (channels g')"
    by (simp add: offline_apply_settings_def offline_update_channel_eq Let_def
        split: option.splits)
  then have "ch_mute (channels (offline_apply_settings pattern g') k)
           = (if (\<exists>k' ts'. ?s k' = Some ts' \<and> solo ts') then \<not> solo ts else mute ts)"
    using fold_update_channel_mute [of k "object_keys ?s" ?s ts "channels g'", OF k assms]
      soloedTracks_nonempty [of ?s] by simp
  with live show ?thesis by simp
qed

lemma snare_of_solo_kick_pattern:
  "trackSettings solo_kick_pattern Snare = Some (track_setting (-3) 0)"
  by (simp add: solo_kick_pattern_def pattern1_def)

lemma solo_kick_pattern_has_solo:
  "\<exists>k' ts'. trackSettings solo_kick_pattern k' = Some ts' \<and> solo ts'"
  by (rule exI [of _ Kick]) (simp add: solo_kick_pattern_def)

text \<open>With the kick soloed, the unmuted snare is silenced on both paths.\<close>

theorem mute_solo_resolution_witness:
  "trackSettings solo_kick_pattern Snare = Some (track_setting (-3) 0)
   \<and> \<not> mute (track_setting (-3) 0)
   \<and> ch_mute (channels (updateMixerSettings (trackSettings solo_kick_pattern)
                 (graph new_AudioEngine)) Snare)
   \<and> ch_mute (channels (offline_apply_settings solo_kick_pattern
                 (offline_graph buildDefaultLayout)) Snare)"
  using mute_solo_resolution [OF snare_of_solo_kick_pattern,
      of "graph new_AudioEngine" "offline_graph buildDefaultLayout"]
    snare_of_solo_kick_pattern solo_kick_pattern_has_solo
  by (simp add: track_setting_def)

section \<open>The per-bar tick\<close>

lemma layout_facts:
  "length (arrangement buildDefaultLayout) = 16"
  "arrangement buildDefaultLayout ! 0 = Some 0"
  "length (patterns buildDefaultLayout) = 8"
  "patterns buildDefaultLayout ! 0 = pattern1"
  by (simp_all add: buildDefaultLayout_def)

lemma engine_facts:
  "currentLayout new_AudioEngine = None"
  "currentPatternIndex new_AudioEngine = None"
  "calls new_AudioEngine = []"
  "isInitialized new_AudioEngine = False"
  by (simp_all add: new_AudioEngine_def)

lemma bar0_of_default:
  "array_get (arrangement buildDefaultLayout)
     \<lfloor>0 * real (length (arrangement buildDefaultLayout))\<rfloor> = Some (Some 0)"
  by (simp add: array_get_def layout_facts)

lemma bar1_of_default:
  "array_get (arrangement buildDefaultLayout)
     \<lfloor>(1/16) * real (length (arrangement buildDefaultLayout))\<rfloor> = Some (Some 0)"
  by (simp add: array_get_def buildDefaultLayout_def)

lemma bar1_of_gap_layout:
  "array_get (arrangement gap_layout) \<lfloor>(1/3) * real (length (arrangement gap_layout))\<rfloor>
     = Some None"
  by (simp add: array_get_def gap_layout_def)

subsection \<open>What a re-sync writes\<close>

lemma fold_update_channel_None:
  "s k = None \<Longrightarrow> fold (update_channel s) ks chans k = chans k"
  by (induction ks arbitrary: chans) (auto simp: update_channel_def split: option.splits)

lemma update_channel_value:
  "s k = Some ts \<Longrightarrow>
   update_channel s k chans k
     = \<lparr>ch_volume = volume ts, ch_pan = pan ts,
        ch_mute = (if length (soloedTracks s) > 0 then \<not> solo ts else mute ts)\<rparr>"
  by (cases "chans k") (simp add: update_channel_def)

lemma fold_update_channel_value:
  "k \<in> set ks \<Longrightarrow> s k = Some ts \<Longrightarrow>
   fold (update_channel s) ks chans k
     = \<lparr>ch_volume = volume ts, ch_pan = pan ts,
        ch_mute = (if length (soloedTracks s) > 0 then \<not> solo ts else mute ts)\<rparr>"
proof (induction ks arbitrary: chans)
  case Nil
  then show ?case by simp
next
  case (Cons x xs)
  show ?case
  proof (cases "k \<in> set xs")
    case True
    then show ?thesis using Cons by simp
  next
    case False
    then have "k = x" using Cons.prems by simp
    moreover have "fold (update_channel s) xs (update_channel s x chans) x
                     = update_channel s x chans x"
      using False \<open>k = x\<close> by (simp add: fold_update_channel_other)
    ultimately show ?thesis
      using update_channel_value [of s k ts chans] Cons.prems by simp
  qed
qed

text \<open>
  \<^verbatim>\<open>loadPattern\<close> field by field: every track of the pattern's settings gets its
  volume, its pan and its resolved mute; every bass effect gets the pattern's wet level,
  and the effect's options are overridden by the pattern's; the bass synthesizer's options
  are overridden by the pattern's synth state when it has one. Samplers and the chord
  synthesizer are not touched.
\<close>

lemma loadPattern_explicit:
  "loadPattern pattern g =
     \<lparr>channels = (\<lambda>k. case trackSettings pattern k of
                         None \<Rightarrow> channels g k
                       | Some ts \<Rightarrow>
                           \<lparr>ch_volume = volume ts, ch_pan = pan ts,
                            ch_mute = (if (\<exists>k' ts'. trackSettings pattern k' = Some ts' \<and> solo ts')
                                       then \<not> solo ts else mute ts)\<rparr>),
      bassEffects =
        \<lparr>fx_distortion =
           \<lparr>fx_wet = wet (distortion (effectsState pattern)),
            fx_options = fx_options (fx_distortion (bassEffects g))
                           ++ settings (distortion (effectsState pattern))\<rparr>,
         fx_delay =
           \<lparr>fx_wet = wet (delay (effectsState pattern)),
            fx_options = fx_options (fx_delay (bassEffects g))
                           ++ settings (delay (effectsState pattern))\<rparr>,
         fx_reverb =
           \<lparr>fx_wet = wet (reverb (effectsState pattern)),
            fx_options = fx_options (fx_reverb (bassEffects g))
                           ++ settings (reverb (effectsState pattern))\<rparr>\<rparr>,
      samplers = samplers g,
      bass_synth = (case synthState pattern of
                      None \<Rightarrow> bass_synth g
                    | Some st \<Rightarrow> bass_synth g ++ st),
      chords_synth = chords_synth g\<rparr>"
proof -
  let ?s = "trackSettings pattern"
  have ch: "fold (update_channel ?s) (object_keys ?s) (channels g)
              = (\<lambda>k. case ?s k of
                        None \<Rightarrow> channels g k
                      | Some ts \<Rightarrow>
                          \<lparr>ch_volume = volume ts, ch_pan = pan ts,
                           ch_mute = (if (\<exists>k' ts'. ?s k' = Some ts' \<and> solo ts')
                                      then \<not> solo ts else mute ts)\<rparr>)"
  proof (rule ext)
    fix k
    show "fold (update_channel ?s) (object_keys ?s) (channels g) k
            = (case ?s k of
                 None \<Rightarrow> channels g k
               | Some ts \<Rightarrow>
                   \<lparr>ch_volume = volume ts, ch_pan = pan ts,
                    ch_mute = (if (\<exists>k' ts'. ?s k' = Some ts' \<and> solo ts')
                               then \<not> solo ts else mute ts)\<rparr>)"
    proof (cases "?s k")
      case None
      then show ?thesis by (simp add: fold_update_channel_None)
    next
      case (Some ts)
      then have k: "k \<in> set (object_keys ?s)" by (auto simp: set_object_keys)
      from fold_update_channel_value [of k "object_keys ?s" ?s ts "channels g", OF k Some]
      show ?thesis using Some soloedTracks_nonempty [of ?s] by simp
    qed
  qed
  have fx: "apply_effect st fx = \<lparr>fx_wet = wet st, fx_options = fx_options fx ++ settings st\<rparr>"
    for st fx
    by (cases fx) (simp add: apply_effect_def set_options_def)
  show ?thesis
    by (rule Graph.equality)
       (simp_all add: loadPattern_def updateMixerSettings_def updateBassEffects_def
          setBassSynth_def set_options_def Let_def ch fx split: option.splits)
qed

subsection \<open>Calls that throw\<close>

lemma run_calls_ok:
  "list_all (call_ok accepts) cs \<Longrightarrow> run_calls accepts cs = (None, cs)"
  by (simp add: run_calls_def list_all_iff)

lemma run_calls_throws:
  assumes "\<not> list_all (call_ok accepts) xs"
  shows "run_calls accepts (xs @ ys) = (Some InvalidArgument, takeWhile (call_ok accepts) xs)"
proof -
  obtain x where "x \<in> set xs" "\<not> call_ok accepts x"
    using assms by (auto simp: list_all_iff)
  then show ?thesis
    using assms by (simp add: run_calls_def takeWhile_append1)
qed

lemma pattern1_no_solo: "\<not> (\<exists>k' ts'. trackSettings pattern1 k' = Some ts' \<and> solo ts')"
  by (auto simp: pattern1_def track_setting_def split: if_splits)

lemma pattern1_settings:
  "trackSettings pattern1 Hihat = Some (track_setting (-10) 0)"
  "effectsState pattern1 = createDefaultEffectsState"
  "synthState pattern1 = Some createDefaultSynthState"
  by (simp_all add: pattern1_def)

text \<open>
  C4. A tick whose bar resolves to pattern \<open>p\<close> remembers \<open>p\<close>, and it re-syncs the
  settings exactly when \<open>p\<close> differs from the index remembered before: then every
  track of the pattern's settings has its channel at the pattern's volume and pan and at
  the resolved mute, every bass effect is at the pattern's wet level with its options
  overridden by the pattern's, and the bass synthesizer's options are overridden by the
  pattern's synth state; otherwise the graph is left as it is. A later tick that resolves
  to the same \<open>p\<close> leaves the graph as it is. This holds whether or not a trigger call
  of the tick throws.
\<close>

theorem resync_on_pattern_switch:
  assumes "currentLayout e = Some l"
    and "array_get (arrangement l) \<lfloor>progress * real (length (arrangement l))\<rfloor> = Some (Some p)"
    and "array_get (arrangement l) \<lfloor>progress' * real (length (arrangement l))\<rfloor> = Some (Some p)"
    and "p < length (patterns l)"
  shows "currentPatternIndex (snd (tick accepts s progress time e)) = Some p
       \<and> graph (snd (tick accepts s progress time e))
           = (if currentPatternIndex e = Some p then graph e
              else
                \<lparr>channels = (\<lambda>k. case trackSettings (patterns l ! p) k of
                     None \<Rightarrow> channels (graph e) k
                   | Some ts \<Rightarrow>
                       \<lparr>ch_volume = volume ts, ch_pan = pan ts,
                        ch_mute = (if (\<exists>k' ts'. trackSettings (patterns l ! p) k' = Some ts'
                                          \<and> solo ts')
                                   then \<not> solo ts else mute ts)\<rparr>),
                 bassEffects =
                   \<lparr>fx_distortion =
                      \<lparr>fx_wet = wet (distortion (effectsState (patterns l ! p))),
                       fx_options = fx_options (fx_distortion (bassEffects (graph e)))
                                      ++ settings (distortion (effectsState (patterns l ! p)))\<rparr>,
                    fx_delay =
                      \<lparr>fx_wet = wet (delay (effectsState (patterns l ! p))),
                       fx_options = fx_options (fx_delay (bassEffects (graph e)))
                                      ++ settings (delay (effectsState (patterns l ! p)))\<rparr>,
                    fx_reverb =
                      \<lparr>fx_wet = wet (reverb (effectsState (patterns l ! p))),
                       fx_options = fx_options (fx_reverb (bassEffects (graph e)))
                                      ++ settings (reverb (effectsState (patterns l ! p)))\<rparr>\<rparr>,
                 samplers = samplers (graph e),
                 bass_synth = (case synthState (patterns l ! p) of
                                 None \<Rightarrow> bass_synth (graph e)
                               | Some st \<Rightarrow> bass_synth (graph e) ++ st),
                 chords_synth = chords_synth (graph e)\<rparr>)
       \<and> currentPatternIndex
           (snd (tick accepts s' progress' time' (snd (tick accepts s progress time e)))) = Some p
       \<and> graph (snd (tick accepts s' progress' time' (snd (tick accepts s progress time e))))
           = graph (snd (tick accepts s progress time e))"
proof -
  have pat: "array_get (patterns l) (int p) = Some (patterns l ! p)"
    using assms(4) by (simp add: array_get_def)
  define e1 where "e1 = (if Some p \<noteq> currentPatternIndex e
                          then e\<lparr>graph := loadPattern (patterns l ! p) (graph e),
                                 currentPatternIndex := Some p\<rparr>
                          else e)"
  define res where "res = schedulePattern accepts s (patterns l ! p) time
                            (nat \<lfloor>progress * real (length (arrangement l))\<rfloor>)"
  define e' where "e' = e1\<lparr>calls := calls e1 @ snd res\<rparr>"
  have t: "snd (tick accepts s progress time e) = e'"
    using assms(1,2) pat by (simp add: tick_def Let_def e'_def e1_def res_def)
  have c: "currentLayout e' = Some l" "currentPatternIndex e' = Some p"
    using assms(1) by (auto simp: e'_def e1_def)
  have g: "graph e' = (if currentPatternIndex e = Some p then graph e
                       else loadPattern (patterns l ! p) (graph e))"
    by (auto simp: e'_def e1_def)
  have t': "currentPatternIndex (snd (tick accepts s' progress' time' e')) = Some p"
    "graph (snd (tick accepts s' progress' time' e')) = graph e'"
    using c assms(3) pat by (simp_all add: tick_def Let_def)
  show ?thesis
    unfolding t using c(2) g t' by (simp add: loadPattern_explicit)
qed

text \<open>
  On the default layout bar 0 switches to pattern 0: the hi-hat channel is at the
  pattern's \<open>-10\<close>, the distortion's amount, 0 from the constructor, is the pattern's
  0.4. Bar 1 holds the same pattern and leaves the graph alone. The chord voice does not
  play \<^verbatim>\<open>Cm7\<close>, so both ticks end with an exception, after the re-sync.
\<close>

theorem resync_on_pattern_switch_witness:
  "currentPatternIndex
     (snd (tick tone_accepts (1/8) 0 0 (new_AudioEngine\<lparr>currentLayout := Some buildDefaultLayout\<rparr>)))
     = Some 0
   \<and> channels (graph (snd (tick tone_accepts (1/8) 0 0
        (new_AudioEngine\<lparr>currentLayout := Some buildDefaultLayout\<rparr>)))) Hihat
       = \<lparr>ch_volume = - 10, ch_pan = 0, ch_mute = False\<rparr>
   \<and> fx_options (fx_distortion (bassEffects (graph new_AudioEngine))) ''distortion''
       = Some (Num 0)
   \<and> fx_options (fx_distortion (bassEffects (graph (snd (tick tone_accepts (1/8) 0 0
        (new_AudioEngine\<lparr>currentLayout := Some buildDefaultLayout\<rparr>)))))) ''distortion''
       = Some (Num 0.4)
   \<and> graph (snd (tick tone_accepts (1/8) (1/16) 2 (snd (tick tone_accepts (1/8) 0 0
        (new_AudioEngine\<lparr>currentLayout := Some buildDefaultLayout\<rparr>)))))
       = graph (snd (tick tone_accepts (1/8) 0 0
        (new_AudioEngine\<lparr>currentLayout := Some buildDefaultLayout\<rparr>)))"
proof -
  let ?e = "new_AudioEngine\<lparr>currentLayout := Some buildDefaultLayout\<rparr>"
  have l: "currentLayout ?e = Some buildDefaultLayout" by simp
  have p: "0 < length (patterns buildDefaultLayout)" by (simp add: layout_facts)
  have n: "currentPatternIndex ?e \<noteq> Some 0" by (simp add: engine_facts)
  have d: "fx_options (fx_distortion (bassEffects (graph new_AudioEngine))) ''distortion''
             = Some (Num 0)"
    by (simp add: new_AudioEngine_def live_bassEffects_def new_Effect_def)
  have s: "settings (distortion createDefaultEffectsState) ''distortion'' = Some (Num 0.4)"
    by (simp add: createDefaultEffectsState_def)
  note r = resync_on_pattern_switch [OF l bar0_of_default bar1_of_default p,
      where accepts = tone_accepts and s = "1/8" and time = 0 and s' = "1/8" and time' = 2]
  show ?thesis
    using r n d s pattern1_no_solo
    by (simp add: layout_facts pattern1_settings track_setting_def map_add_def)
qed

text \<open>
  C5. A tick whose arrangement entry is empty sends a release to the bass voice and does
  nothing else: no step is scheduled, the graph is not touched and the remembered pattern
  index stays as it was.
\<close>

theorem empty_bar_tick:
  assumes "currentLayout e = Some l"
    and "array_get (arrangement l) \<lfloor>progress * real (length (arrangement l))\<rfloor> = Some None"
  shows "tick accepts s progress time e
           = (None, e\<lparr>calls := calls e @ [TriggerRelease Bass time]\<rparr>)"
  using assms by (simp add: tick_def Let_def)

theorem empty_bar_tick_witness:
  "tick tone_accepts (1/8) (1/3) 2 (new_AudioEngine\<lparr>currentLayout := Some gap_layout\<rparr>)
     = (None,
        new_AudioEngine\<lparr>currentLayout := Some gap_layout, calls := [TriggerRelease Bass 2]\<rparr>)"
  using empty_bar_tick [of "new_AudioEngine\<lparr>currentLayout := Some gap_layout\<rparr>" gap_layout
      "1/3" tone_accepts "1/8" 2] bar1_of_gap_layout
  by (simp add: engine_facts)

text \<open>
  C10. With no layout held, \<^verbatim>\<open>start\<close> initializes the audio and returns: the transport,
  the main loop and the UI loop are left as they were (and when the initialization fails
  nothing changes at all). A tick with no layout held leaves the engine as it is.
\<close>

theorem start_without_layout:
  assumes "currentLayout e = None"
  shows "start audio_ok e
           = (if isInitialized e \<or> audio_ok then Inr (e\<lparr>isInitialized := True\<rparr>)
              else Inl InitError)
       \<and> tick accepts s progress time e = (None, e)"
  using assms by (auto simp: start_def initialize_def tick_def)

theorem start_without_layout_witness:
  "currentLayout new_AudioEngine = None
   \<and> start True new_AudioEngine = Inr (new_AudioEngine\<lparr>isInitialized := True\<rparr>)
   \<and> start False new_AudioEngine = Inl InitError
   \<and> tick tone_accepts (1/8) 0 0 new_AudioEngine = (None, new_AudioEngine)"
  using start_without_layout [OF engine_facts(1),
      where audio_ok = True and accepts = tone_accepts and s = "1/8" and progress = 0 and time = 0]
    start_without_layout [OF engine_facts(1),
      where audio_ok = False and accepts = tone_accepts and s = "1/8" and progress = 0 and time = 0]
  by (simp add: engine_facts)

text \<open>
  The default layout as it is shipped: the tick of bar 0 triggers the kick, the hi-hat
  and the bass note of step 0, and ends with the exception of the chord voice at
  \<^verbatim>\<open>Cm7\<close>.
\<close>

lemma upt16_Cons: "[0..<16] = 0 # [Suc 0..<16]"
  by (simp add: upt_conv_Cons)

lemma step0_of_pattern1:
  "step_calls (1/8) (sequencerState pattern1) 0 0 0
     = [TriggerAttack Kick ''C1'' 0, TriggerAttack Hihat ''C1'' 0,
        TriggerAttackRelease Bass (StepStr ''C3'') ''16n'' 0,
        TriggerAttackRelease Chords (StepStr ''Cm7'') ''4n'' 0,
        DrawSchedule 0 0 0]"
  by (simp add: step_calls_def pattern1_def step_at_def note_steps_def drum_steps_def)

lemma tone_accepts_names:
  "tone_accepts t (StepStr ''C1'')" "tone_accepts t (StepStr ''C3'')"
  "tone_accepts t (StepStr ''C4'')" "\<not> tone_accepts t (StepStr ''Cm7'')"
  by (simp_all add: tone_accepts_def pitch_name_def starts_octave_def)

lemma default_tick_throws:
  "tick tone_accepts (1/8) 0 0 (new_AudioEngine\<lparr>currentLayout := Some buildDefaultLayout\<rparr>)
     = (Some InvalidArgument,
        new_AudioEngine\<lparr>currentLayout := Some buildDefaultLayout,
          graph := loadPattern pattern1 (graph new_AudioEngine),
          currentPatternIndex := Some 0,
          calls := [TriggerAttack Kick ''C1'' 0, TriggerAttack Hihat ''C1'' 0,
                    TriggerAttackRelease Bass (StepStr ''C3'') ''16n'' 0]\<rparr>)"
proof -
  let ?rest = "concat (map (step_calls (1/8) (sequencerState pattern1) 0 0) [Suc 0..<16])"
  have "schedulePattern tone_accepts (1/8) pattern1 0 0
          = run_calls tone_accepts (step_calls (1/8) (sequencerState pattern1) 0 0 0 @ ?rest)"
    unfolding schedulePattern_def upt16_Cons by simp
  also have "\<dots> = (Some InvalidArgument,
                    takeWhile (call_ok tone_accepts)
                      (step_calls (1/8) (sequencerState pattern1) 0 0 0))"
    by (rule run_calls_throws) (simp add: step0_of_pattern1 tone_accepts_names)
  finally have sch: "schedulePattern tone_accepts (1/8) pattern1 0 0
          = (Some InvalidArgument,
             [TriggerAttack Kick ''C1'' 0, TriggerAttack Hihat ''C1'' 0,
              TriggerAttackRelease Bass (StepStr ''C3'') ''16n'' 0])"
    by (simp add: step0_of_pattern1 tone_accepts_names)
  have a: "arrangement buildDefaultLayout \<noteq> []" "patterns buildDefaultLayout \<noteq> []"
    by (simp_all add: buildDefaultLayout_def)
  show ?thesis
    by (simp add: tick_def Let_def array_get_def a layout_facts engine_facts sch)
qed

section \<open>The offline renderer against the live scheduler\<close>

text \<open>
  The offline loop sets out to make, step by step, the voice calls of
  \<^verbatim>\<open>schedulePattern\<close>; only the \<^verbatim>\<open>Tone.Draw\<close> callbacks of the live scheduler are
  missing.
\<close>

lemma offline_step_calls_eq:
  "offline_step_calls s seq t i = filter is_voice_call (step_calls s seq t b i)"
  by (simp add: offline_step_calls_def step_calls_def Let_def)

lemma offline_schedule_eq:
  "concat (map (offline_step_calls s seq t) [0..<16])
     = filter is_voice_call (concat (map (step_calls s seq t b) [0..<16]))"
  by (simp only: filter_concat map_map comp_def
        offline_step_calls_eq [of s seq t _ b, symmetric])

lemma playable_step:
  assumes "playable accepts pattern" and "i < 16"
  shows "list_all (call_ok accepts) (step_calls s (sequencerState pattern) t b i)"
proof -
  have "list_all (\<lambda>tr. if truthy (step_at (sequencerState pattern tr) i)
                        then accepts tr (call_note tr (step_at (sequencerState pattern tr) i))
                        else True)
          [Kick, Snare, Hihat, Bass, Chords]"
    using assms by (simp add: playable_def list_all_iff)
  then show ?thesis
    by (auto simp: step_calls_def Let_def call_note_def split: if_splits)
qed

lemma playable_schedule:
  assumes "playable accepts pattern"
  shows "list_all (call_ok accepts)
           (concat (map (step_calls s (sequencerState pattern) t b) [0..<16]))"
    and "list_all (call_ok accepts)
           (concat (map (offline_step_calls s (sequencerState pattern) t) [0..<16]))"
proof -
  show live: "list_all (call_ok accepts)
           (concat (map (step_calls s (sequencerState pattern) t b) [0..<16]))"
    using playable_step [OF assms] by (simp add: list_all_iff)
  have "list_all (call_ok accepts)
          (filter is_voice_call (concat (map (step_calls s (sequencerState pattern) t b) [0..<16])))"
    using live by (auto simp: list_all_iff)
  then show "list_all (call_ok accepts)
           (concat (map (offline_step_calls s (sequencerState pattern) t) [0..<16]))"
    by (simp only: offline_schedule_eq [of s _ t b])
qed

lemma playable_note_pattern: "playable tone_accepts note_pattern"
proof -
  have "[0..<16] = [0, 1, 2, 3, 4, 5, 6, 7, 8, 9, 10, 11, 12, 13, 14, 15]"
    by (simp add: upt_rec)
  then show ?thesis
    by (simp add: playable_def note_pattern_def pattern1_def step_at_def drum_steps_def
        note_steps_def call_note_def tone_accepts_def pitch_name_def starts_octave_def)
qed

lemma render_bars_calls:
  assumes "\<forall>b \<in> set bs. case arrangement l ! b of
                              None \<Rightarrow> True
                            | Some p \<Rightarrow> p < length (patterns l) \<and> playable accepts (patterns l ! p)"
  shows "\<exists>g'. render_bars accepts bd s l bs (g, cs)
           = Inr (g', cs @ concat (map (\<lambda>b. case arrangement l ! b of None \<Rightarrow> []
                 | Some p \<Rightarrow> concat (map (offline_step_calls s (sequencerState (patterns l ! p))
                                           (real b * bd)) [0..<16])) bs))"
  using assms
proof (induction bs arbitrary: g cs)
  case Nil
  then show ?case by simp
next
  case (Cons b bs)
  show ?case
  proof (cases "arrangement l ! b")
    case None
    then have "render_bar accepts bd s l b (g, cs) = Inr (g, cs)"
      by (simp add: render_bar_def)
    then show ?thesis using None Cons.IH [of g cs] Cons.prems by simp
  next
    case (Some p)
    let ?cs = "concat (map (offline_step_calls s (sequencerState (patterns l ! p)) (real b * bd))
                 [0..<16])"
    have p: "p < length (patterns l)" "playable accepts (patterns l ! p)"
      using Some Cons.prems by simp_all
    have "run_calls accepts ?cs = (None, ?cs)"
      using playable_schedule(2) [OF p(2)] by (rule run_calls_ok)
    then have "render_bar accepts bd s l b (g, cs)
                 = Inr (offline_apply_settings (patterns l ! p) g, cs @ ?cs)"
      using Some p(1) by (simp add: render_bar_def array_get_def)
    then show ?thesis
      using Some Cons.IH [of "offline_apply_settings (patterns l ! p) g" "cs @ ?cs"] Cons.prems
      by simp
  qed
qed

lemma renderSong_scheduled:
  assumes "1 \<le> \<lfloor>bd * real (length (arrangement l)) * rate\<rfloor>"
    and "valid_arrangement l" and "playable_arrangement accepts l"
  shows "\<exists>r. renderSong rate accepts bd s l = Inr r
           \<and> totalDuration r = bd * real (length (arrangement l))
           \<and> scheduled r
               = concat (map (\<lambda>b. case arrangement l ! b of
                                     None \<Rightarrow> []
                                   | Some p \<Rightarrow>
                                       concat (map (offline_step_calls s
                                                 (sequencerState (patterns l ! p)) (real b * bd))
                                               [0..<16]))
                           [0..<length (arrangement l)])"
proof -
  have "\<forall>b \<in> set [0..<length (arrangement l)].
          case arrangement l ! b of
            None \<Rightarrow> True
          | Some p \<Rightarrow> p < length (patterns l) \<and> playable accepts (patterns l ! p)"
    using assms(2,3)
    by (auto simp: valid_arrangement_def playable_arrangement_def list_all_length
        split: option.splits)
  from render_bars_calls [OF this, of bd s "offline_graph l" "[]"]
  obtain g' where "render_bars accepts bd s l [0..<length (arrangement l)] (offline_graph l, [])
      = Inr (g', concat (map (\<lambda>b. case arrangement l ! b of None \<Rightarrow> []
                 | Some p \<Rightarrow> concat (map (offline_step_calls s (sequencerState (patterns l ! p))
                                           (real b * bd)) [0..<16])) [0..<length (arrangement l)]))"
    by auto
  then show ?thesis
    using assms(1) by (simp add: renderSong_def Let_def)
qed




lemma note_layout_facts:
  "length (arrangement note_layout) = 3"
  "arrangement note_layout ! 0 = Some 0"
  "arrangement note_layout ! 2 = Some 0"
  "arrangement note_layout = [Some 0, None, Some 0]"
  "patterns note_layout = [note_pattern]"
  by (simp_all add: note_layout_def)

lemma note_layout_renders:
  "valid_arrangement note_layout" "playable_arrangement tone_accepts note_layout"
  by (simp_all add: valid_arrangement_def playable_arrangement_def note_layout_facts
      playable_note_pattern)

lemma note_pattern_steps:
  "truthy (step_at (sequencerState note_pattern Kick) 0)"
  "step_at (sequencerState note_pattern Chords) 0 = StepStr ''C4''"
  "step_at (sequencerState note_pattern Chords) 4 = StepStr ''F4''"
  by (simp_all add: note_pattern_def pattern1_def step_at_def drum_steps_def note_steps_def)


text \<open>
  Layouts that do not render: one without bars, for which no offline context is created,
  and the default layout, whose first chord the chord voice does not play.
\<close>

lemma empty_arrangement_rejected:
  "arrangement l = [] \<Longrightarrow> renderSong rate accepts bd s l = Inl OfflineContextError"
  by (simp add: renderSong_def)

lemma offline_step0_of_pattern1:
  "offline_step_calls (1/8) (sequencerState pattern1) 0 0
     = [TriggerAttack Kick ''C1'' 0, TriggerAttack Hihat ''C1'' 0,
        TriggerAttackRelease Bass (StepStr ''C3'') ''16n'' 0,
        TriggerAttackRelease Chords (StepStr ''Cm7'') ''4n'' 0]"
  by (simp add: offline_step_calls_def pattern1_def step_at_def note_steps_def drum_steps_def)

lemma default_layout_render_rejected:
  "renderSong 44100 tone_accepts 2 (1/8) buildDefaultLayout = Inl InvalidArgument"
proof -
  let ?rest = "concat (map (offline_step_calls (1/8) (sequencerState pattern1) 0)
                 [Suc 0..<16])"
  have "run_calls tone_accepts
          (offline_step_calls (1/8) (sequencerState pattern1) 0 0 @ ?rest)
          = (Some InvalidArgument,
             takeWhile (call_ok tone_accepts)
               (offline_step_calls (1/8) (sequencerState pattern1) 0 0))"
    by (rule run_calls_throws) (simp add: offline_step0_of_pattern1 tone_accepts_names)
  then have "fst (run_calls tone_accepts
               (concat (map (offline_step_calls (1/8) (sequencerState pattern1) 0)
                  [0..<16]))) = Some InvalidArgument"
    unfolding upt16_Cons by simp
  then have "render_bar tone_accepts 2 (1/8) buildDefaultLayout 0 st = Inl InvalidArgument" for st
    by (simp add: render_bar_def array_get_def layout_facts Let_def)
  then have "render_bars tone_accepts 2 (1/8) buildDefaultLayout (0 # bs) st = Inl InvalidArgument"
    for bs st
    by simp
  then show ?thesis
    by (simp add: renderSong_def layout_facts upt16_Cons)
qed

subsection \<open>The voices\<close>

lemma loadPattern_chords_synth: "chords_synth (loadPattern pattern g) = chords_synth g"
  by (simp add: loadPattern_explicit)

lemma render_bars_chords_synth:
  "render_bars accepts bd s l bs st = Inr st' \<Longrightarrow> chords_synth (fst st') = chords_synth (fst st)"
proof (induction bs arbitrary: st)
  case Nil
  then show ?case by simp
next
  case (Cons b bs)
  then obtain st1 where 1: "render_bar accepts bd s l b st = Inr st1"
    and 2: "render_bars accepts bd s l bs st1 = Inr st'"
    by (auto split: sum.splits)
  have "chords_synth (fst st1) = chords_synth (fst st)"
    using 1 by (auto simp: render_bar_def Let_def offline_apply_settings_eq
        loadPattern_chords_synth split: option.splits)
  then show ?case using Cons.IH [OF 2] by simp
qed

text \<open>No pattern setting reaches the chord voice: offline it keeps the empty options.\<close>

lemma renderSong_chords_synth:
  assumes "renderSong rate accepts bd s l = Inr r"
  shows "chords_synth (offline r) = Map.empty"
proof -
  obtain st where st: "render_bars accepts bd s l [0..<length (arrangement l)] (offline_graph l, [])
                         = Inr st"
    and r: "offline r = fst st"
    using assms by (auto simp: renderSong_def Let_def split: sum.splits if_splits)
  show ?thesis
    using render_bars_chords_synth [OF st] r by (simp add: offline_graph_def)
qed

lemma tick_note_bar0:
  "tick tone_accepts (1/8) 0 0 (new_AudioEngine\<lparr>currentLayout := Some note_layout\<rparr>)
     = (None,
        new_AudioEngine\<lparr>currentLayout := Some note_layout,
          graph := loadPattern note_pattern (graph new_AudioEngine),
          currentPatternIndex := Some 0,
          calls := concat (map (step_calls (1/8) (sequencerState note_pattern) 0 0) [0..<16])\<rparr>)"
proof -
  have "schedulePattern tone_accepts (1/8) note_pattern 0 0
          = (None, concat (map (step_calls (1/8) (sequencerState note_pattern) 0 0) [0..<16]))"
    unfolding schedulePattern_def
    using playable_schedule(1) [OF playable_note_pattern] by (rule run_calls_ok)
  then show ?thesis
    by (simp add: tick_def Let_def array_get_def note_layout_facts engine_facts)
qed

lemma in_concat_map:
  "i < length xs \<Longrightarrow> c \<in> set (f (xs ! i)) \<Longrightarrow> c \<in> set (concat (map f xs))"
  by (auto simp: in_set_conv_nth intro!: bexI [of _ "xs ! i"])

lemma chord_step0_live:
  "TriggerAttackRelease Chords (StepStr ''C4'') ''4n'' 0
     \<in> set (step_calls (1/8) (sequencerState note_pattern) 0 0 0)"
  by (simp add: step_calls_def note_pattern_steps)

text \<open>
  C1. The specification has the offline render of a layout match live playback bar by
  bar: settings, step events and voice configurations. The settings and the step events
  do match (\<open>offline_apply_settings_eq\<close>, \<open>offline_schedule_eq\<close>); the voices do not.
  The constructor of the engine configures the chord synthesizer (a \<^verbatim>\<open>fatsawtooth\<close>
  oscillator), the renderer constructs it without options for every layout, and nothing
  applied per bar reaches it. On the layout of three bars whose chords are note names
  both paths run and schedule the chord \<^verbatim>\<open>C4\<close> at time 0 of bar 0, each on its own
  chord synthesizer.
\<close>

theorem offline_chord_voice_differs:
  "chords_synth (graph new_AudioEngine) ''oscillator.type'' = Some (Text ''fatsawtooth'')
   \<and> chords_synth (offline_graph l) ''oscillator.type'' = None
   \<and> (\<exists>e' r. tick tone_accepts (1/8) 0 0 (new_AudioEngine\<lparr>currentLayout := Some note_layout\<rparr>)
                 = (None, e')
          \<and> renderSong 44100 tone_accepts 2 (1/8) note_layout = Inr r
          \<and> TriggerAttackRelease Chords (StepStr ''C4'') ''4n'' 0 \<in> set (calls e')
          \<and> TriggerAttackRelease Chords (StepStr ''C4'') ''4n'' 0 \<in> set (scheduled r)
          \<and> chords_synth (graph e') ''oscillator.type'' = Some (Text ''fatsawtooth'')
          \<and> chords_synth (offline r) ''oscillator.type'' = None)"
proof -
  let ?c = "TriggerAttackRelease Chords (StepStr ''C4'') ''4n'' 0"
  let ?e' = "new_AudioEngine\<lparr>currentLayout := Some note_layout,
               graph := loadPattern note_pattern (graph new_AudioEngine),
               currentPatternIndex := Some 0,
               calls := concat (map (step_calls (1/8) (sequencerState note_pattern) 0 0) [0..<16])\<rparr>"
  have built: "chords_synth (graph new_AudioEngine) ''oscillator.type'' = Some (Text ''fatsawtooth'')"
    by (simp add: new_AudioEngine_def live_chords_synth_def)
  have off0: "chords_synth (offline_graph l) ''oscillator.type'' = None"
    by (simp add: offline_graph_def)
  have live: "?c \<in> set (calls ?e')"
    using in_concat_map [of 0 "[0..<16]" ?c
        "step_calls (1/8) (sequencerState note_pattern) 0 0"] chord_step0_live
    by simp
  have lv: "chords_synth (graph ?e') ''oscillator.type'' = Some (Text ''fatsawtooth'')"
    using built by (simp add: loadPattern_chords_synth)
  have f: "1 \<le> \<lfloor>2 * real (length (arrangement note_layout)) * (44100::real)\<rfloor>"
    by (simp add: note_layout_facts)
  from renderSong_scheduled [OF f note_layout_renders, of "1/8"]
  obtain r where r: "renderSong 44100 tone_accepts 2 (1/8) note_layout = Inr r"
    and sch: "scheduled r
       = concat (map (\<lambda>b. case arrangement note_layout ! b of
                             None \<Rightarrow> []
                           | Some p \<Rightarrow>
                               concat (map (offline_step_calls (1/8)
                                         (sequencerState (patterns note_layout ! p)) (real b * 2))
                                       [0..<16]))
                   [0..<length (arrangement note_layout)])"
    by blast
  have "?c \<in> set (offline_step_calls (1/8) (sequencerState note_pattern) (real 0 * 2) 0)"
    by (simp add: offline_step_calls_def note_pattern_steps)
  then have "?c \<in> set (concat (map (offline_step_calls (1/8) (sequencerState note_pattern)
                                       (real 0 * 2)) [0..<16]))"
    using in_concat_map [of 0 "[0..<16]" ?c] by simp
  then have off: "?c \<in> set (scheduled r)"
    unfolding sch by (intro in_concat_map [of 0]) (simp_all add: note_layout_facts)
  have "chords_synth (offline r) ''oscillator.type'' = None"
    using renderSong_chords_synth [OF r] by simp
  with built off0 tick_note_bar0 r live off lv show ?thesis by blast
qed

section \<open>WAV encoding\<close>

lemma le32:
  fixes x :: nat
  assumes "x < 2 ^ 32"
  shows "x mod 256 + 256 * (x div 256 mod 256) + 65536 * (x div 65536 mod 256)
     + 16777216 * (x div 16777216 mod 256) = x"
proof -
  define a where "a = x div 256"
  define b where "b = a div 256"
  define c where "c = b div 256"
  have b': "x div 65536 = b" unfolding b_def a_def by (simp add: div_mult2_eq)
  have c': "x div 16777216 = c" unfolding c_def b_def a_def by (simp add: div_mult2_eq)
  have "c < 256" using assms c' by simp
  then have c'': "c mod 256 = c" by simp
  have "x = x mod 256 + 256 * a" unfolding a_def by simp
  moreover have "a = a mod 256 + 256 * b" unfolding b_def by simp
  moreover have "b = b mod 256 + 256 * c" unfolding c_def by simp
  ultimately have "x = x mod 256 + 256 * (a mod 256) + 65536 * (b mod 256) + 16777216 * c"
    by linarith
  then show ?thesis using b' c' c'' a_def by simp
qed

lemma le16:
  fixes x :: nat
  assumes "x < 2 ^ 16"
  shows "x mod 256 + 256 * (x div 256 mod 256) = x"
proof -
  have "x div 256 < 256" using assms by simp
  then show ?thesis by simp
qed

subsection \<open>Single writes\<close>

lemma setUint32_snd: "snd (setUint32 d vp) = snd vp + 4"
  by (simp add: setUint32_def split: prod.splits)

lemma setUint16_snd: "snd (setUint16 d vp) = snd vp + 2"
  by (simp add: setUint16_def split: prod.splits)

lemma setUint32_length: "length (fst (setUint32 d vp)) = length (fst vp)"
  by (simp add: setUint32_def split: prod.splits)

lemma setUint16_length: "length (fst (setUint16 d vp)) = length (fst vp)"
  by (simp add: setUint16_def split: prod.splits)

lemma nth_setUint32: "j < snd vp \<Longrightarrow> fst (setUint32 d vp) ! j = fst vp ! j"
  by (cases vp) (simp add: setUint32_def)

lemma nth_setUint16: "j < snd vp \<Longrightarrow> fst (setUint16 d vp) ! j = fst vp ! j"
  by (cases vp) (simp add: setUint16_def)

lemma getUint32_at:
  assumes "snd vp = off" and "off + 4 \<le> length (fst vp)" and "d < 2 ^ 32"
  shows "getUint32 (fst (setUint32 d vp)) off = d"
  using assms le32 [of d]
  by (cases vp) (auto simp: setUint32_def getUint32_def nth_list_update)

lemma getUint16_at:
  assumes "snd vp = off" and "off + 2 \<le> length (fst vp)" and "d < 2 ^ 16"
  shows "getUint16 (fst (setUint16 d vp)) off = d"
  using assms le16 [of d]
  by (cases vp) (auto simp: setUint16_def getUint16_def nth_list_update)

lemma getUint32_before32:
  "off + 4 \<le> snd vp \<Longrightarrow> getUint32 (fst (setUint32 d vp)) off = getUint32 (fst vp) off"
  by (simp add: getUint32_def nth_setUint32)

lemma getUint32_before16:
  "off + 4 \<le> snd vp \<Longrightarrow> getUint32 (fst (setUint16 d vp)) off = getUint32 (fst vp) off"
  by (simp add: getUint32_def nth_setUint16)

lemma getUint16_before32:
  "off + 2 \<le> snd vp \<Longrightarrow> getUint16 (fst (setUint32 d vp)) off = getUint16 (fst vp) off"
  by (simp add: getUint16_def nth_setUint32)

lemma getUint16_before16:
  "off + 2 \<le> snd vp \<Longrightarrow> getUint16 (fst (setUint16 d vp)) off = getUint16 (fst vp) off"
  by (simp add: getUint16_def nth_setUint16)

lemmas view_simps = setUint32_snd setUint16_snd setUint32_length setUint16_length
  getUint32_before32 getUint32_before16 getUint16_before32 getUint16_before16

subsection \<open>The header\<close>

lemma write_header_snd: "snd (write_header buffer) = 44"
  by (simp add: write_header_def Let_def view_simps)

lemma write_header_length:
  "length (fst (write_header buffer)) = buffer_length buffer * numberOfChannels buffer * 2 + 44"
  by (simp add: write_header_def Let_def view_simps)

lemma write_header_fields:
  assumes "buffer_length buffer * numberOfChannels buffer * 2 + 36 < 2 ^ 32"
    and "numberOfChannels buffer < 2 ^ 16"
    and "sampleRate buffer < 2 ^ 32"
  shows "getUint32 (fst (write_header buffer)) 4
           = buffer_length buffer * numberOfChannels buffer * 2 + 36"
    and "getUint16 (fst (write_header buffer)) 22 = numberOfChannels buffer"
    and "getUint32 (fst (write_header buffer)) 24 = sampleRate buffer"
    and "getUint16 (fst (write_header buffer)) 34 = 16"
  using assms
  by (simp_all add: write_header_def Let_def view_simps getUint32_at getUint16_at)

subsection \<open>The sample loop\<close>

lemma write_frame_fold:
  "snd (fold (\<lambda>i. setInt16 (f i)) is vp) = snd vp + 2 * length is
   \<and> length (fst (fold (\<lambda>i. setInt16 (f i)) is vp)) = length (fst vp)
   \<and> (\<forall>j < snd vp. fst (fold (\<lambda>i. setInt16 (f i)) is vp) ! j = fst vp ! j)"
proof (induction "is" arbitrary: vp)
  case Nil
  then show ?case by simp
next
  case (Cons i "is")
  show ?case
    using Cons.IH [of "setInt16 (f i) vp"]
    by (simp add: setInt16_def setUint16_snd setUint16_length nth_setUint16)
qed

lemma write_frame_props:
  "snd (write_frame buffer offset vp) = snd vp + 2 * numberOfChannels buffer"
  "length (fst (write_frame buffer offset vp)) = length (fst vp)"
  "j < snd vp \<Longrightarrow> fst (write_frame buffer offset vp) ! j = fst vp ! j"
  using write_frame_fold [of _ "[0..<numberOfChannels buffer]" vp]
  unfolding write_frame_def by simp_all

text \<open>
  The loop returns: after \<open>k\<close> more frames the position reaches the length. It keeps the
  length of the view and every byte below the position it started from.
\<close>

lemma write_data_returns:
  assumes "snd vp + 2 * numberOfChannels buffer * k = len"
  shows "\<exists>bytes. write_data buffer len offset vp = Some (bytes, len)
           \<and> length bytes = length (fst vp)
           \<and> (\<forall>j < snd vp. bytes ! j = fst vp ! j)"
  using assms
proof (induction k arbitrary: offset vp)
  case 0
  then have "write_data buffer len offset vp = Some vp"
    by (subst write_data.simps) simp
  then show ?case using 0 by (cases vp) simp
next
  case (Suc k)
  show ?case
  proof (cases "snd vp < len")
    case False
    then have "write_data buffer len offset vp = Some vp"
      by (subst write_data.simps) simp
    moreover have "snd vp = len" using False Suc.prems by simp
    ultimately show ?thesis by (cases vp) simp
  next
    case True
    let ?vp' = "write_frame buffer offset vp"
    have step: "write_data buffer len offset vp = write_data buffer len (Suc offset) ?vp'"
      using True by (subst write_data.simps) simp
    have "snd ?vp' + 2 * numberOfChannels buffer * k = len"
      using Suc.prems by (simp add: write_frame_props)
    from Suc.IH [OF this, of "Suc offset"]
    obtain bytes where b: "write_data buffer len (Suc offset) ?vp' = Some (bytes, len)"
      "length bytes = length (fst ?vp')" "\<forall>j < snd ?vp'. bytes ! j = fst ?vp' ! j"
      by blast
    have "\<forall>j < snd vp. bytes ! j = fst vp ! j"
      using b(3) by (simp add: write_frame_props)
    then show ?thesis using step b by (simp add: write_frame_props)
  qed
qed

text \<open>
  C6. For a buffer of \<open>N\<close> frames, \<open>C\<close> channels and sample rate \<open>R\<close> whose values
  fit the header fields, the encoder returns a file of \<open>N * C * 2 + 44\<close> bytes whose
  little-endian fields are: \<open>N * C * 2 + 44 - 8\<close> in the 32 bits at offset 4, \<open>C\<close> in
  the 16 bits at offset 22, \<open>R\<close> in the 32 bits at offset 24 and 16 in the 16 bits at
  offset 34.
\<close>

theorem wav_header_layout:
  assumes "buffer_length buffer * numberOfChannels buffer * 2 + 36 < 2 ^ 32"
    and "numberOfChannels buffer < 2 ^ 16"
    and "sampleRate buffer < 2 ^ 32"
  shows "\<exists>bytes. audioBufferToWav buffer = Some bytes
           \<and> length bytes = buffer_length buffer * numberOfChannels buffer * 2 + 44
           \<and> getUint32 bytes 4 = buffer_length buffer * numberOfChannels buffer * 2 + 44 - 8
           \<and> getUint16 bytes 22 = numberOfChannels buffer
           \<and> getUint32 bytes 24 = sampleRate buffer
           \<and> getUint16 bytes 34 = 16"
proof -
  let ?n = "buffer_length buffer * numberOfChannels buffer * 2"
  let ?h = "write_header buffer"
  note h = write_header_fields [OF assms]
  have "snd ?h + 2 * numberOfChannels buffer * buffer_length buffer = ?n + 44"
    by (simp add: write_header_snd)
  from write_data_returns [OF this, of 0]
  obtain bytes where b: "write_data buffer (?n + 44) 0 ?h = Some (bytes, ?n + 44)"
    "length bytes = length (fst ?h)" "\<forall>j < snd ?h. bytes ! j = fst ?h ! j"
    by blast
  have same: "bytes ! j = fst ?h ! j" if "j < 44" for j
    using b(3) that by (simp add: write_header_snd)
  have "audioBufferToWav buffer = Some bytes"
    using b(1) by (simp add: audioBufferToWav_def)
  moreover have "length bytes = ?n + 44" using b(2) by (simp add: write_header_length)
  moreover have "getUint32 bytes 4 = ?n + 44 - 8"
    using h(1) by (simp add: getUint32_def same)
  moreover have "getUint16 bytes 22 = numberOfChannels buffer"
    using h(2) by (simp add: getUint16_def same)
  moreover have "getUint32 bytes 24 = sampleRate buffer"
    using h(3) by (simp add: getUint32_def same)
  moreover have "getUint16 bytes 34 = 16"
    using h(4) by (simp add: getUint16_def same)
  ultimately show ?thesis by blast
qed

theorem wav_header_layout_witness:
  "\<exists>bytes. audioBufferToWav demo_buffer = Some bytes \<and> length bytes = 56
      \<and> getUint32 bytes 4 = 48 \<and> getUint16 bytes 22 = 2
      \<and> getUint32 bytes 24 = 44100 \<and> getUint16 bytes 34 = 16"
  using wav_header_layout [of demo_buffer] by (simp add: demo_buffer_def)

subsection \<open>Scaling a sample\<close>

lemma clamp_sample_range: "- 1 \<le> clamp_sample x \<and> clamp_sample x \<le> 1"
  by (simp add: clamp_sample_def)

text \<open>
  The test of line 520 is \<^verbatim>\<open>0.5 + sample < 0\<close>: the factor 32768 is used below
  \<open>- 1/2\<close>, the factor 32767 from \<open>- 1/2\<close> on.
\<close>

lemma scale_sample_threshold:
  "scale_sample x = to_int32 (x * (if x < - (1/2) then 32768 else 32767))"
  by (simp add: scale_sample_def)

lemma ceiling_quarter: "\<lceil>- (32767 / 4 :: real)\<rceil> = - 8191"
  by (simp add: ceiling_unique)

lemma encode_quarter: "encode_sample (Some (- (1/4))) = - 8191"
  by (simp add: encode_sample_def clamp_sample_def scale_sample_def to_int32_def ceiling_quarter)

text \<open>
  The same sample through the whole encoder: it is frame 1 of channel 1 of the stereo
  buffer, and so the 16 bits at offset \<open>44 + 2 * (1 * 2 + 1) = 50\<close> of the file.
\<close>

lemma demo_frame1:
  "write_frame demo_buffer (Suc 0) vp
     = setInt16 (- 8191) (setInt16 (encode_sample (Some (1/2))) vp)"
proof -
  have "[0..<2] = [0, Suc 0]" by (simp add: upt_rec)
  then show ?thesis
    by (simp add: write_frame_def demo_buffer_def channel_sample_def encode_quarter)
qed

lemma getInt16_setInt16:
  assumes "snd vp = off" and "off + 2 \<le> length (fst vp)"
  shows "getInt16 (fst (setInt16 (- 8191) vp)) off = - 8191"
proof -
  have "nat ((- 8191) mod 65536) = 57345" by simp
  then have "getUint16 (fst (setInt16 (- 8191) vp)) off = 57345"
    using getUint16_at [OF assms, of 57345] by (simp add: setInt16_def)
  then show ?thesis by (simp add: getInt16_def)
qed

lemma demo_wav_sample:
  "\<exists>bytes. audioBufferToWav demo_buffer = Some bytes \<and> getInt16 bytes 50 = - 8191"
proof -
  let ?h = "write_header demo_buffer"
  let ?v1 = "write_frame demo_buffer 0 ?h"
  let ?v2 = "write_frame demo_buffer (Suc 0) ?v1"
  have n: "numberOfChannels demo_buffer = 2" "buffer_length demo_buffer = 3"
    by (simp_all add: demo_buffer_def)
  have p1: "snd ?v1 = 48" "length (fst ?v1) = 56"
    by (simp_all add: write_frame_props write_header_snd write_header_length n)
  have p2: "snd ?v2 = 52"
    by (simp add: write_frame_props write_header_snd n)
  have "snd ?v2 + 2 * numberOfChannels demo_buffer * 1 = 56"
    by (simp add: p2 n)
  from write_data_returns [OF this, of 2]
  obtain bytes where b: "write_data demo_buffer 56 2 ?v2 = Some (bytes, 56)"
    "\<forall>j < snd ?v2. bytes ! j = fst ?v2 ! j"
    by blast
  have "write_data demo_buffer 56 0 ?h = write_data demo_buffer 56 (Suc 0) ?v1"
    by (subst write_data.simps) (simp add: write_header_snd)
  also have "\<dots> = write_data demo_buffer 56 2 ?v2"
    by (subst write_data.simps) (simp add: p1 numeral_2_eq_2)
  finally have "audioBufferToWav demo_buffer = Some bytes"
    using b(1) by (simp add: audioBufferToWav_def n)
  moreover have "getInt16 bytes 50 = getInt16 (fst ?v2) 50"
    using b(2) by (simp add: getInt16_def getUint16_def p2)
  moreover have "getInt16 (fst ?v2) 50 = - 8191"
    unfolding demo_frame1
    by (rule getInt16_setInt16)
       (simp_all add: setInt16_def setUint16_snd setUint16_length p1)
  ultimately show ?thesis by simp
qed

text \<open>
  C2. The specification has every clamped sample scaled by 32768 when it is negative and
  by 32767 otherwise. The sample \<open>- 1/4\<close> is negative and within the clamp; the
  encoder scales it by 32767 and writes \<open>- 8191\<close> into the file, where the factor
  32768 gives \<open>- 8192\<close>.
\<close>

theorem quarter_sample_scaled_by_32767:
  "clamp_sample (- (1/4)) = - (1/4)
   \<and> encode_sample (Some (- (1/4))) = - 8191
   \<and> to_int32 (clamp_sample (- (1/4)) * 32767) = - 8191
   \<and> to_int32 (clamp_sample (- (1/4)) * 32768) = - 8192
   \<and> (\<exists>bytes. audioBufferToWav demo_buffer = Some bytes \<and> getInt16 bytes 50 = - 8191)"
proof -
  have c: "clamp_sample (- (1/4)) = - (1/4)"
    by (simp add: clamp_sample_def)
  have "to_int32 (- (1/4) * 32767) = - 8191"
    by (simp add: to_int32_def ceiling_quarter)
  moreover have "to_int32 (- (1/4) * 32768) = - 8192"
    by (simp add: to_int32_def)
  ultimately show ?thesis
    using encode_quarter demo_wav_sample by (simp add: c)
qed

section \<open>The component's handlers\<close>

lemma loadSample_failure:
  assumes "isInitialized e \<or> audio_ok" and "\<not> loads (createSampler url)"
  shows "fst (loadSample audio_ok loads tr url e) = Some LoadError"
    and "samplers (graph (snd (loadSample audio_ok loads tr url e))) tr = createSampler url"
  using assms by (auto simp: loadSample_def initialize_def Let_def)

lemma loadSample_initialized:
  "isInitialized (snd (loadSample True loads tr url e))"
  by (simp add: loadSample_def initialize_def Let_def)

lemma loadSample_other_sampler:
  "tr' \<noteq> tr \<Longrightarrow> samplers (graph (snd (loadSample audio_ok loads tr url e))) tr'
     = samplers (graph e) tr'"
  by (auto simp: loadSample_def initialize_def Let_def)

text \<open>
  When the new sample does not load, the handler leaves the layout alone and reports the
  error, but the engine's sampler of the track is already the new one.
\<close>

lemma handleSampleSelected_failure:
  assumes "isInitialized (audioEngine d) \<or> audio_ok" and "\<not> loads (createSampler url)"
    and "toast d"
  shows "samplers (graph (audioEngine (handleSampleSelected audio_ok loads tr url d))) tr
           = createSampler url"
    and "layout (handleSampleSelected audio_ok loads tr url d) = layout d"
    and "notifications (handleSampleSelected audio_ok loads tr url d)
           = notifications d @ [''Loading '' @ drum_name tr @ '' sample...'',
                                ''Error: Could not load '' @ drum_name tr @ '' sample.'']"
proof -
  note f = loadSample_failure [of "audioEngine d" audio_ok loads url tr, OF assms(1,2)]
  show "samplers (graph (audioEngine (handleSampleSelected audio_ok loads tr url d))) tr
           = createSampler url"
    using f assms(3) by (simp add: handleSampleSelected_def Let_def showNotification_def)
  show "layout (handleSampleSelected audio_ok loads tr url d) = layout d"
    using f assms(3) by (simp add: handleSampleSelected_def Let_def showNotification_def)
  show "notifications (handleSampleSelected audio_ok loads tr url d)
           = notifications d @ [''Loading '' @ drum_name tr @ '' sample...'',
                                ''Error: Could not load '' @ drum_name tr @ '' sample.'']"
    using f assms(3) by (simp add: handleSampleSelected_def Let_def showNotification_def)
qed

lemma initial_daw_facts:
  "toast initial_daw" "notifications initial_daw = []"
  "layout initial_daw = buildDefaultLayout"
  by (simp_all add: initial_daw_def)

lemma initial_engine_facts:
  "isInitialized (audioEngine initial_daw)"
  "samplers (graph (audioEngine initial_daw)) KickDrum = createSampler ''kick.wav''"
proof -
  let ?l = buildDefaultLayout
  let ?e1 = "new_AudioEngine\<lparr>currentLayout := Some ?l, transport_bpm := bpm ?l\<rparr>"
  let ?k = "snd (loadSample True (\<lambda>u. True) KickDrum (sampleSettings ?l KickDrum) ?e1)"
  let ?s = "snd (loadSample True (\<lambda>u. True) SnareDrum (sampleSettings ?l SnareDrum) ?k)"
  let ?h = "snd (loadSample True (\<lambda>u. True) HihatDrum (sampleSettings ?l HihatDrum) ?s)"
  have e: "audioEngine initial_daw = ?h"
    by (simp add: initial_daw_def updateAll_def loadSampleIfChanged_def Let_def engine_facts)
  show "isInitialized (audioEngine initial_daw)"
    unfolding e by (rule loadSample_initialized)
  have "samplers (graph ?k) KickDrum = createSampler ''kick.wav''"
    by (simp add: loadSample_def initialize_def Let_def buildDefaultLayout_def
        SAMPLE_LIBRARY_default_def)
  then show "samplers (graph (audioEngine initial_daw)) KickDrum = createSampler ''kick.wav''"
    unfolding e by (simp add: loadSample_other_sampler)
qed

text \<open>
  C8. The specification has a failed load leave the state unchanged, the engine's
  instrument of the track included. Selecting \<^verbatim>\<open>kick_808.wav\<close> when it does not load:
  the error is notified and the layout still names \<^verbatim>\<open>kick.wav\<close>, but the engine's kick
  sampler, which was the one of \<^verbatim>\<open>kick.wav\<close>, is now the one of \<^verbatim>\<open>kick_808.wav\<close>.
\<close>

theorem failed_load_swaps_sampler:
  "samplers (graph (audioEngine initial_daw)) KickDrum = createSampler ''kick.wav''
   \<and> samplers (graph (audioEngine (handleSampleSelected True
          (\<lambda>u. u \<noteq> createSampler ''kick_808.wav'') KickDrum ''kick_808.wav'' initial_daw))) KickDrum
       = createSampler ''kick_808.wav''
   \<and> createSampler ''kick_808.wav'' \<noteq> createSampler ''kick.wav''
   \<and> sampleSettings (layout (handleSampleSelected True
          (\<lambda>u. u \<noteq> createSampler ''kick_808.wav'') KickDrum ''kick_808.wav'' initial_daw)) KickDrum
       = ''kick.wav''
   \<and> notifications (handleSampleSelected True
          (\<lambda>u. u \<noteq> createSampler ''kick_808.wav'') KickDrum ''kick_808.wav'' initial_daw)
       = [''Loading kick sample...'', ''Error: Could not load kick sample.'']"
proof -
  note f = handleSampleSelected_failure [of initial_daw True
      "\<lambda>u. u \<noteq> createSampler ''kick_808.wav''" "''kick_808.wav''" KickDrum]
  have "createSampler ''kick_808.wav'' \<noteq> createSampler ''kick.wav''"
    by (simp add: createSampler_def)
  moreover have "sampleSettings buildDefaultLayout KickDrum = ''kick.wav''"
    by (simp add: buildDefaultLayout_def SAMPLE_LIBRARY_default_def)
  ultimately show ?thesis
    using initial_engine_facts f initial_daw_facts
    by (simp add: drum_name_def)
qed

lemma prompt_of_initial_daw: "\<not> blank (chordPromptText initial_daw)"
  by (simp add: initial_daw_def blank_def is_space_def)

text \<open>
  C9. With a prompt entered, a result of the chord helper that is \<^verbatim>\<open>null\<close>, or an array
  of a length other than 16, or an exception, leaves the layout (and so every chord step)
  as it was and shows a notification; an array of exactly 16 entries replaces the chord
  steps of the active pattern.
\<close>

theorem invalid_chords_rejected:
  assumes "\<not> blank (chordPromptText d)" and "toast d"
  shows "layout (handleGenerateChords audio_ok loads (Returns None) d) = layout d
       \<and> notifications (handleGenerateChords audio_ok loads (Returns None) d)
           = notifications d @ [''AI failed to generate a valid chord progression.'']
       \<and> layout (handleGenerateChords audio_ok loads Throws d) = layout d
       \<and> notifications (handleGenerateChords audio_ok loads Throws d)
           = notifications d @ [''Error generating AI chords.'']
       \<and> layout (handleGenerateChords audio_ok loads (Returns (Some newChords)) d)
           = (if length newChords = 16
              then (case activePattern_index d of
                      None \<Rightarrow> layout d
                    | Some i \<Rightarrow> set_chord_steps i (map chord_step newChords) (layout d))
              else layout d)
       \<and> notifications (handleGenerateChords audio_ok loads (Returns (Some newChords)) d)
           = notifications d @ [if length newChords = 16 then ''AI chord progression generated!''
                                else ''AI failed to generate a valid chord progression.'']"
  using assms
  by (simp add: handleGenerateChords_def Let_def showNotification_def mutate_layout_def
      activePattern_index_def split: option.splits)

text \<open>Fifteen chords are rejected, sixteen become the chord steps of pattern 0.\<close>

theorem invalid_chords_rejected_witness:
  "\<not> blank (chordPromptText initial_daw) \<and> toast initial_daw
   \<and> layout (handleGenerateChords True (\<lambda>u. True)
               (Returns (Some (replicate 15 (Some ''Cm7'')))) initial_daw) = layout initial_daw
   \<and> notifications (handleGenerateChords True (\<lambda>u. True)
               (Returns (Some (replicate 15 (Some ''Cm7'')))) initial_daw)
       = [''AI failed to generate a valid chord progression.'']
   \<and> sequencerState (patterns (layout (handleGenerateChords True (\<lambda>u. True)
               (Returns (Some (replicate 16 (Some ''Cm7'')))) initial_daw)) ! 0) Chords
       = replicate 16 (StepStr ''Cm7'')"
proof -
  have a: "activePattern_index initial_daw = Some 0"
    by (simp add: activePattern_index_def initial_daw_def layout_facts buildDefaultLayout_def)
  have b: "sequencerState (patterns (set_chord_steps 0 steps buildDefaultLayout) ! 0) Chords = steps"
    for steps
    by (simp add: set_chord_steps_def buildDefaultLayout_def)
  show ?thesis
    using prompt_of_initial_daw initial_daw_facts
      invalid_chords_rejected [OF prompt_of_initial_daw initial_daw_facts(1),
        of True "\<lambda>u. True" "replicate 15 (Some ''Cm7'')"]
      invalid_chords_rejected [OF prompt_of_initial_daw initial_daw_facts(1),
        of True "\<lambda>u. True" "replicate 16 (Some ''Cm7'')"]
    by (simp add: a b chord_step_def)
qed

end
